theory Spec2Isabelle
  imports Main
begin

section \<open>Values\<close>

text \<open>
  The service of \<^verbatim>\<open>src/main.py\<close> validates JSON request bodies with a declarative schema,
  stores person rows in one table and answers with JSON. Python strings are modelled as
  \<^typ>\<open>string\<close>, a character standing for its code point (so the model covers code points
  below 256); Python integers are unbounded, hence \<^typ>\<open>int\<close>.

  A calendar date is compared the way \<^verbatim>\<open>datetime.date\<close> compares: by year, then month, then
  day.
\<close>

datatype date = Date (year: nat) (month: nat) (day: nat)

fun date_gt :: "date \<Rightarrow> date \<Rightarrow> bool" where
  "date_gt (Date y1 m1 d1) (Date y2 m2 d2) =
     (y1 > y2 \<or> (y1 = y2 \<and> (m1 > m2 \<or> (m1 = m2 \<and> d1 > d2))))"

text \<open>
  A decoded JSON document, as \<^verbatim>\<open>request.json\<close> delivers it. Numbers with a fractional part are
  not represented. An object is a list of key/value pairs in document order.
\<close>

datatype json =
    JNull
  | JBool bool
  | JInt int
  | JStr string
  | JArr "json list"
  | JObj "(string \<times> json) list"

text \<open>The Python values that a loaded field or a table column can hold.\<close>

datatype pyval =
    VNone
  | VBool bool
  | VInt int
  | VStr string
  | VDate date

text \<open>
  Functions of the libraries the program calls whose exact behaviour depends on the installed
  version or on the database engine behind \<^verbatim>\<open>DATABASE_URL\<close>. They are parameters of the model:
  the ISO date parser behind \<^verbatim>\<open>fields.Date\<close>, Python's \<^verbatim>\<open>int(str)\<close> behind \<^verbatim>\<open>fields.Integer\<close>,
  the syntax checks of \<^verbatim>\<open>fields.Email\<close> and \<^verbatim>\<open>fields.URL\<close>, the engine's conversion of the text
  of a query parameter to an integer, a date or a boolean column, the attributes that class
  \<^verbatim>\<open>Persona\<close> inherits from the model base class (each with the outcome of comparing it with
  a text by \<^verbatim>\<open>==\<close>), and the text of the \<^verbatim>\<open>InvalidRequestError\<close> raised for a filter key that
  names no attribute.
\<close>

record lib =
  from_iso_date :: "string \<Rightarrow> date option"
  int_of_str :: "string \<Rightarrow> int option"
  email_ok :: "string \<Rightarrow> bool"
  url_ok :: "string \<Rightarrow> bool"
  sql_int :: "string \<Rightarrow> int option"
  sql_date :: "string \<Rightarrow> date option"
  sql_bool :: "string \<Rightarrow> bool option"
  inherited_attr :: "string \<Rightarrow> (string \<Rightarrow> bool) option"
  no_property_msg :: "string \<Rightarrow> string"

section \<open>Validators\<close>

text \<open>
  A validator is called on the deserialised value and raises \<^verbatim>\<open>ValidationError\<close> with a
  message, or returns. It is modelled by the list of messages it raises, empty when it passes.
\<close>

definition Range_min :: "int \<Rightarrow> string \<Rightarrow> int \<Rightarrow> string list" where
  "Range_min lo err v = (if v < lo then [err] else [])"

definition Range_max :: "int \<Rightarrow> string \<Rightarrow> int \<Rightarrow> string list" where
  "Range_max hi err v = (if v > hi then [err] else [])"

definition Range_max_date :: "date \<Rightarrow> string \<Rightarrow> date \<Rightarrow> string list" where
  "Range_max_date hi err v = (if date_gt v hi then [err] else [])"

definition Length_min :: "nat \<Rightarrow> string \<Rightarrow> string \<Rightarrow> string list" where
  "Length_min lo err v = (if length v < lo then [err] else [])"

definition OneOf :: "string list \<Rightarrow> string \<Rightarrow> string \<Rightarrow> string list" where
  "OneOf choices err v = (if v \<in> set choices then [] else [err])"

definition Email_validator :: "lib \<Rightarrow> string \<Rightarrow> string list" where
  "Email_validator L v = (if email_ok L v then [] else [''Not a valid email address.''])"

definition URL_validator :: "lib \<Rightarrow> string \<Rightarrow> string list" where
  "URL_validator L v = (if url_ok L v then [] else [''Not a valid URL.''])"

text \<open>
  \<^verbatim>\<open>Field._validate\<close> runs every validator of the list, in order, and collects all messages.
\<close>

definition run_validators :: "('a \<Rightarrow> string list) list \<Rightarrow> 'a \<Rightarrow> string list" where
  "run_validators vs x = concat (map (\<lambda>v. v x) vs)"

section \<open>The name pattern\<close>

text \<open>
  \<^verbatim>\<open>validate.Regexp\<close> compiles its pattern with \<^verbatim>\<open>re.compile\<close> and rejects the value when
  \<^verbatim>\<open>regex.match(value)\<close> is \<^verbatim>\<open>None\<close>. Patterns are abstract syntax; matching is by
  derivatives.
\<close>

datatype rexp =
    RRange char char
  | RChar char
  | REps
  | RNone
  | RSeq rexp rexp
  | RAlt rexp rexp
  | RStar rexp

definition in_range :: "char \<Rightarrow> char \<Rightarrow> char \<Rightarrow> bool" where
  "in_range lo hi c = ((of_char lo :: nat) \<le> of_char c \<and> (of_char c :: nat) \<le> of_char hi)"

fun nullable :: "rexp \<Rightarrow> bool" where
  "nullable (RRange lo hi) = False"
| "nullable (RChar c) = False"
| "nullable REps = True"
| "nullable RNone = False"
| "nullable (RSeq r s) = (nullable r \<and> nullable s)"
| "nullable (RAlt r s) = (nullable r \<or> nullable s)"
| "nullable (RStar r) = True"

fun deriv :: "char \<Rightarrow> rexp \<Rightarrow> rexp" where
  "deriv c (RRange lo hi) = (if in_range lo hi c then REps else RNone)"
| "deriv c (RChar d) = (if c = d then REps else RNone)"
| "deriv c REps = RNone"
| "deriv c RNone = RNone"
| "deriv c (RSeq r s) =
     (if nullable r then RAlt (RSeq (deriv c r) s) (deriv c s) else RSeq (deriv c r) s)"
| "deriv c (RAlt r s) = RAlt (deriv c r) (deriv c s)"
| "deriv c (RStar r) = RSeq (deriv c r) (RStar r)"

fun fullmatch :: "rexp \<Rightarrow> string \<Rightarrow> bool" where
  "fullmatch r [] = nullable r"
| "fullmatch r (c # cs) = fullmatch (deriv c r) cs"

text \<open>\<^verbatim>\<open>x+\<close> is \<^verbatim>\<open>xx*\<close>.\<close>

definition RPlus :: "rexp \<Rightarrow> rexp" where
  "RPlus r = RSeq r (RStar r)"

text \<open>
  A pattern \<^verbatim>\<open>^r$\<close> without flags: \<^verbatim>\<open>^\<close> anchors at the start; \<^verbatim>\<open>$\<close> matches at the end of
  the string and also just before a newline that is the last character.
\<close>

definition anchored_match :: "rexp \<Rightarrow> string \<Rightarrow> bool" where
  "anchored_match r s =
     (fullmatch r s \<or> (s \<noteq> [] \<and> last s = CHR 0x0A \<and> fullmatch r (butlast s)))"

definition Regexp :: "rexp \<Rightarrow> string \<Rightarrow> string \<Rightarrow> string list" where
  "Regexp r err v = (if anchored_match r v then [] else [err])"

text \<open>The body of \<^verbatim>\<open>^[A-Z][a-z]+(?: [A-Z][a-z]+)*$\<close>.\<close>

definition capitalised :: rexp where
  "capitalised = RSeq (RRange CHR ''A'' CHR ''Z'') (RPlus (RRange CHR ''a'' CHR ''z''))"

definition nombre_rexp :: rexp where
  "nombre_rexp = RSeq capitalised (RStar (RSeq (RChar CHR '' '') capitalised))"

section \<open>Fields and the schema\<close>

text \<open>
  \<^verbatim>\<open>Field.deserialize\<close> for a value that is present: \<^verbatim>\<open>null\<close> is refused (no field allows it),
  then the field's own \<^verbatim>\<open>_deserialize\<close> runs, then all of its validators. The result is the
  raised messages (\<open>Inl\<close>) or the loaded value (\<open>Inr\<close>).
\<close>

definition deserialize ::
  "(json \<Rightarrow> string list + 'a) \<Rightarrow> ('a \<Rightarrow> string list) list \<Rightarrow> ('a \<Rightarrow> pyval) \<Rightarrow> json
     \<Rightarrow> string list + pyval" where
  "deserialize des vs wrap v =
     (if v = JNull then Inl [''Field may not be null.'']
      else case des v of
             Inl e \<Rightarrow> Inl e
           | Inr x \<Rightarrow> (if run_validators vs x = [] then Inr (wrap x)
                       else Inl (run_validators vs x)))"

text \<open>
  \<^verbatim>\<open>fields.String\<close> accepts a string only and raises the field's \<^verbatim>\<open>invalid\<close> message
  otherwise; \<^verbatim>\<open>fields.Email\<close> and \<^verbatim>\<open>fields.URL\<close> are strings with their own \<^verbatim>\<open>invalid\<close>
  message.
\<close>

fun String_deserialize :: "string \<Rightarrow> json \<Rightarrow> string list + string" where
  "String_deserialize invalid (JStr s) = Inr s"
| "String_deserialize invalid v = Inl [invalid]"

text \<open>
  \<^verbatim>\<open>fields.Integer\<close> is not strict: booleans are refused, anything else goes through
  \<^verbatim>\<open>int(value)\<close>.
\<close>

fun Integer_deserialize :: "lib \<Rightarrow> json \<Rightarrow> string list + int" where
  "Integer_deserialize L (JInt n) = Inr n"
| "Integer_deserialize L (JStr s) =
     (case int_of_str L s of Some n \<Rightarrow> Inr n | None \<Rightarrow> Inl [''Not a valid integer.''])"
| "Integer_deserialize L v = Inl [''Not a valid integer.'']"

text \<open>
  \<^verbatim>\<open>fields.Date\<close> refuses a falsy value, then parses ISO text; whatever the parser raises
  becomes the same message.
\<close>

fun Date_deserialize :: "lib \<Rightarrow> json \<Rightarrow> string list + date" where
  "Date_deserialize L (JStr s) =
     (if s = [] then Inl [''Not a valid date.'']
      else case from_iso_date L s of Some d \<Rightarrow> Inr d | None \<Rightarrow> Inl [''Not a valid date.''])"
| "Date_deserialize L v = Inl [''Not a valid date.'']"

record field =
  fname :: string
  required :: bool
  deser :: "json \<Rightarrow> string list + pyval"

definition nombre_regexp_error :: string where
  "nombre_regexp_error =
     ''El apellido debe iniciar con may'' @ [CHR 0xFA] @ ''scula y contener solo letras.''"

definition nombre_length_error :: string where
  "nombre_length_error = ''El apellido debe tener al menos 3 caracteres.''"

definition nombre_validators :: "(string \<Rightarrow> string list) list" where
  "nombre_validators =
     [Regexp nombre_rexp nombre_regexp_error, Length_min 3 nombre_length_error]"

definition nombre_field :: field where
  "nombre_field = \<lparr>fname = ''nombre'', required = True,
     deser = deserialize (String_deserialize ''Not a valid string.'') nombre_validators VStr\<rparr>"

definition apellido_field :: field where
  "apellido_field = \<lparr>fname = ''apellido'', required = True,
     deser = deserialize (String_deserialize ''Not a valid string.'') [] VStr\<rparr>"

definition categoria_field :: field where
  "categoria_field = \<lparr>fname = ''categoria'', required = True,
     deser = deserialize (String_deserialize ''Not a valid string.'')
       [OneOf [''A'', ''B'', ''C'', ''D'', ''E'', ''F''] ''Must be one of: A, B, C, D, E, F.'']
       VStr\<rparr>"

definition edad_min_error :: string where
  "edad_min_error = ''Debe ser mayor de edad''"

definition edad_max_error :: string where
  "edad_max_error = ''No debe ser una persona mayor de edad''"

definition edad_validators :: "(int \<Rightarrow> string list) list" where
  "edad_validators = [Range_min 18 edad_min_error, Range_max 50 edad_max_error]"

definition edad_field :: "lib \<Rightarrow> field" where
  "edad_field L = \<lparr>fname = ''edad'', required = False,
     deser = deserialize (Integer_deserialize L) edad_validators VInt\<rparr>"

definition correo_electronico_field :: "lib \<Rightarrow> field" where
  "correo_electronico_field L = \<lparr>fname = ''correo_electronico'', required = True,
     deser = deserialize (String_deserialize ''Not a valid email address.'')
       [Email_validator L] VStr\<rparr>"

definition url_field :: "lib \<Rightarrow> field" where
  "url_field L = \<lparr>fname = ''url'', required = True,
     deser = deserialize (String_deserialize ''Not a valid URL.'') [URL_validator L] VStr\<rparr>"

text \<open>
  The class body of \<^verbatim>\<open>PersonaSchema\<close> runs once, when the module is imported, and
  \<^verbatim>\<open>validate.Range(max=date.today(), ...)\<close> is built there: the bound stored in the validator is
  the date \<open>boot\<close> on which the process started.
\<close>

definition fecha_nacimiento_error :: string where
  "fecha_nacimiento_error = ''La fecha de nacimiento no puede ser futura''"

definition fecha_nacimiento_validators :: "date \<Rightarrow> (date \<Rightarrow> string list) list" where
  "fecha_nacimiento_validators boot = [Range_max_date boot fecha_nacimiento_error]"

definition fecha_nacimiento_field :: "lib \<Rightarrow> date \<Rightarrow> field" where
  "fecha_nacimiento_field L boot = \<lparr>fname = ''fecha_nacimiento'', required = False,
     deser = deserialize (Date_deserialize L) (fecha_nacimiento_validators boot) VDate\<rparr>"

text \<open>
  The fields a load reads, in declaration order. \<^verbatim>\<open>id\<close> is \<^verbatim>\<open>dump_only\<close> and is not among
  them.
\<close>

definition PersonaSchema :: "lib \<Rightarrow> date \<Rightarrow> field list" where
  "PersonaSchema L boot =
     [nombre_field, apellido_field, categoria_field, edad_field L,
      correo_electronico_field L, url_field L, fecha_nacimiento_field L boot]"

section \<open>Loading\<close>

text \<open>
  \<^verbatim>\<open>Schema.load\<close> on a JSON object (keys distinct, as in a Python dict). Every declared field is
  visited: an absent key is skipped when the load is partial or the field is optional and is an
  error otherwise; a present key is deserialised, and either its messages are stored under the
  field's name or its value enters the result. Then every key of the input that is not a
  declared field is an error (\<^verbatim>\<open>unknown = RAISE\<close>, the default). The load raises
  \<^verbatim>\<open>ValidationError\<close> with all stored messages (\<open>Inl\<close>) when there are any.
\<close>

type_synonym errors = "(string \<times> string list) list"
type_synonym data = "(string \<times> pyval) list"

fun load_loop :: "bool \<Rightarrow> field list \<Rightarrow> (string \<times> json) list \<Rightarrow> errors \<times> data" where
  "load_loop partial [] inp = ([], [])"
| "load_loop partial (f # fs) inp =
     (case load_loop partial fs inp of (errs, ret) \<Rightarrow>
        (case map_of inp (fname f) of
           None \<Rightarrow>
             if partial \<or> \<not> required f then (errs, ret)
             else ((fname f, [''Missing data for required field.'']) # errs, ret)
         | Some v \<Rightarrow>
             (case deser f v of
                Inl e \<Rightarrow> ((fname f, e) # errs, ret)
              | Inr x \<Rightarrow> (errs, (fname f, x) # ret))))"

definition unknown_errors :: "field list \<Rightarrow> (string \<times> json) list \<Rightarrow> errors" where
  "unknown_errors fs inp =
     map (\<lambda>k. (k, [''Unknown field.'']))
       (filter (\<lambda>k. k \<notin> set (map fname fs)) (remdups (map fst inp)))"

definition load :: "bool \<Rightarrow> field list \<Rightarrow> (string \<times> json) list \<Rightarrow> errors + data" where
  "load partial fs inp =
     (case load_loop partial fs inp of (errs, ret) \<Rightarrow>
        if errs @ unknown_errors fs inp = [] then Inr ret
        else Inl (errs @ unknown_errors fs inp))"

section \<open>The table\<close>

text \<open>
  A row of table \<^verbatim>\<open>personas\<close>, which is also a \<^verbatim>\<open>Persona\<close> object: one attribute per column.
  The store is the table, in row order, with the next identifier the engine will hand out.
\<close>

record persona =
  id_p :: pyval
  nombre :: pyval
  apellido :: pyval
  categoria :: pyval
  edad :: pyval
  correo_electronico :: pyval
  url :: pyval
  fecha_nacimiento :: pyval
  es_activo :: pyval

record store =
  rows :: "persona list"
  next_id :: int

definition blank :: persona where
  "blank = \<lparr>id_p = VNone, nombre = VNone, apellido = VNone, categoria = VNone, edad = VNone,
     correo_electronico = VNone, url = VNone, fecha_nacimiento = VNone, es_activo = VNone\<rparr>"

text \<open>
  \<^verbatim>\<open>setattr(persona, key, value)\<close> for the keys a load can produce. Any other name would not be
  a column and leaves the row as it is.
\<close>

definition setattr :: "persona \<Rightarrow> string \<times> pyval \<Rightarrow> persona" where
  "setattr p kv =
     (case kv of (k, v) \<Rightarrow>
        if k = ''nombre'' then p\<lparr>nombre := v\<rparr>
        else if k = ''apellido'' then p\<lparr>apellido := v\<rparr>
        else if k = ''categoria'' then p\<lparr>categoria := v\<rparr>
        else if k = ''edad'' then p\<lparr>edad := v\<rparr>
        else if k = ''correo_electronico'' then p\<lparr>correo_electronico := v\<rparr>
        else if k = ''url'' then p\<lparr>url := v\<rparr>
        else if k = ''fecha_nacimiento'' then p\<lparr>fecha_nacimiento := v\<rparr>
        else p)"

text \<open>\<^verbatim>\<open>Persona(**data)\<close>: the declarative constructor sets each keyword as an attribute.\<close>

definition Persona :: "data \<Rightarrow> persona" where
  "Persona d = foldl setattr blank d"

text \<open>
  \<^verbatim>\<open>Persona.query.get_or_404(id)\<close>: the row with that primary key, or \<open>None\<close> for the 404
  abort.
\<close>

definition get_or_404 :: "store \<Rightarrow> int \<Rightarrow> persona option" where
  "get_or_404 st i = find (\<lambda>r. id_p r = VInt i) (rows st)"

text \<open>
  The constraints the table declares, checked by the engine when a commit flushes a row:
  \<^verbatim>\<open>nullable=False\<close> on five columns and \<^verbatim>\<open>unique=True\<close> on the e-mail address.
\<close>

definition not_null_ok :: "persona \<Rightarrow> bool" where
  "not_null_ok p =
     (nombre p \<noteq> VNone \<and> apellido p \<noteq> VNone \<and> categoria p \<noteq> VNone
      \<and> correo_electronico p \<noteq> VNone \<and> url p \<noteq> VNone)"

definition email_taken :: "persona list \<Rightarrow> pyval \<Rightarrow> bool" where
  "email_taken rs e = (find (\<lambda>r. correo_electronico r = e) rs \<noteq> None)"

text \<open>
  \<^verbatim>\<open>db.session.add(person); db.session.commit()\<close>: the insert fails (\<open>None\<close>) on a constraint,
  else the row receives its identifier and the column default of \<^verbatim>\<open>es_activo\<close>.
\<close>

definition insert_commit :: "store \<Rightarrow> persona \<Rightarrow> (persona \<times> store) option" where
  "insert_commit st p =
     (if \<not> not_null_ok p \<or> email_taken (rows st) (correo_electronico p) then None
      else
        (let row = p\<lparr>id_p := VInt (next_id st),
                     es_activo := (if es_activo p = VNone then VBool True else es_activo p)\<rparr>
         in Some (row, st\<lparr>rows := rows st @ [row], next_id := next_id st + 1\<rparr>)))"

text \<open>
  The commit after the attributes of row \<open>i\<close> were set: the update fails on a constraint
  (the address is checked only when it changed), else the row is replaced.
\<close>

definition update_commit :: "store \<Rightarrow> int \<Rightarrow> persona \<Rightarrow> persona \<Rightarrow> store option" where
  "update_commit st i old new =
     (if \<not> not_null_ok new
         \<or> (correo_electronico new \<noteq> correo_electronico old
             \<and> email_taken (filter (\<lambda>r. id_p r \<noteq> VInt i) (rows st)) (correo_electronico new))
      then None
      else Some (st\<lparr>rows := map (\<lambda>r. if id_p r = VInt i then new else r) (rows st)\<rparr>))"

definition delete_commit :: "store \<Rightarrow> int \<Rightarrow> store" where
  "delete_commit st i = st\<lparr>rows := filter (\<lambda>r. id_p r \<noteq> VInt i) (rows st)\<rparr>"

section \<open>Serialisation\<close>

definition digit :: "nat \<Rightarrow> char" where
  "digit n = char_of (48 + n mod 10)"

definition isoformat :: "date \<Rightarrow> string" where
  "isoformat d =
     [digit (year d div 1000), digit (year d div 100), digit (year d div 10), digit (year d),
      CHR ''-'', digit (month d div 10), digit (month d),
      CHR ''-'', digit (day d div 10), digit (day d)]"

fun serialize :: "pyval \<Rightarrow> json" where
  "serialize VNone = JNull"
| "serialize (VBool b) = JBool b"
| "serialize (VInt n) = JInt n"
| "serialize (VStr s) = JStr s"
| "serialize (VDate d) = JStr (isoformat d)"

text \<open>\<^verbatim>\<open>persona_schema.dump\<close>: every declared field; \<^verbatim>\<open>es_activo\<close> is not declared.\<close>

definition dump :: "persona \<Rightarrow> (string \<times> json) list" where
  "dump p =
     [(''id'', serialize (id_p p)), (''nombre'', serialize (nombre p)),
      (''apellido'', serialize (apellido p)), (''categoria'', serialize (categoria p)),
      (''edad'', serialize (edad p)),
      (''correo_electronico'', serialize (correo_electronico p)),
      (''url'', serialize (url p)),
      (''fecha_nacimiento'', serialize (fecha_nacimiento p))]"

section \<open>The handlers\<close>

text \<open>
  What a view returns: a body and a status. A view that returns a body alone is answered with
  status 200. An exception no handler catches ends the request with status 500.
\<close>

datatype body =
    Errors errors
  | Message string
  | Item "(string \<times> json) list"
  | Items "(string \<times> json) list list"
  | Empty
  | ServerError

type_synonym response = "body \<times> nat"

definition page_not_found :: response where
  "page_not_found = (Message ''Persona no encontrada'', 404)"

definition create_person ::
  "lib \<Rightarrow> date \<Rightarrow> store \<Rightarrow> (string \<times> json) list \<Rightarrow> response \<times> store" where
  "create_person L boot st inp =
     (case load False (PersonaSchema L boot) inp of
        Inl e \<Rightarrow> ((Errors e, 400), st)
      | Inr d \<Rightarrow>
          (case insert_commit st (Persona d) of
             None \<Rightarrow> ((ServerError, 500), st)
           | Some (person, st') \<Rightarrow> ((Item (dump person), 201), st')))"

text \<open>
  \<^verbatim>\<open>**request.args\<close>: the keys of the query string in order of first appearance, each with its
  first value.
\<close>

function kwargs :: "(string \<times> string) list \<Rightarrow> (string \<times> string) list" where
  "kwargs [] = []"
| "kwargs (kv # rest) = kv # kwargs (filter (\<lambda>kv'. fst kv' \<noteq> fst kv) rest)"
  by pat_completeness auto
termination
  by (relation "measure length") (auto simp: less_Suc_eq_le)

text \<open>The nine mapped columns of class \<^verbatim>\<open>Persona\<close>, by attribute name.\<close>

definition column :: "string \<Rightarrow> (persona \<Rightarrow> pyval) option" where
  "column k =
     (if k = ''id'' then Some id_p
      else if k = ''nombre'' then Some nombre
      else if k = ''apellido'' then Some apellido
      else if k = ''categoria'' then Some categoria
      else if k = ''edad'' then Some edad
      else if k = ''correo_electronico'' then Some correo_electronico
      else if k = ''url'' then Some url
      else if k = ''fecha_nacimiento'' then Some fecha_nacimiento
      else if k = ''es_activo'' then Some es_activo
      else None)"

text \<open>
  \<^verbatim>\<open>filter_by\<close> resolves a keyword with \<^verbatim>\<open>getattr\<close> on the mapped class. The result is a
  column, or another attribute of the class, or the lookup fails. The class body declares one
  attribute that is no column, \<^verbatim>\<open>__tablename__ = 'personas'\<close>; the others are inherited. For an
  attribute that is no column only the outcome of comparing it with a text is kept.
\<close>

datatype attr =
    Column "persona \<Rightarrow> pyval"
  | Plain "string \<Rightarrow> bool"

definition getattr_Persona :: "lib \<Rightarrow> string \<Rightarrow> attr option" where
  "getattr_Persona L k =
     (case column k of
        Some c \<Rightarrow> Some (Column c)
      | None \<Rightarrow>
          if k = ''__tablename__'' then Some (Plain (\<lambda>v. ''personas'' = v))
          else map_option Plain (inherited_attr L k))"

text \<open>
  A column compared with the text of a query parameter: the engine converts the text to the
  type of the stored value and compares; a text that does not convert equals nothing, and
  \<^verbatim>\<open>NULL\<close> equals nothing.
\<close>

fun sql_eq :: "lib \<Rightarrow> pyval \<Rightarrow> string \<Rightarrow> bool" where
  "sql_eq L VNone s = False"
| "sql_eq L (VBool b) s = (sql_bool L s = Some b)"
| "sql_eq L (VInt n) s = (sql_int L s = Some n)"
| "sql_eq L (VStr t) s = (t = s)"
| "sql_eq L (VDate d) s = (sql_date L s = Some d)"

text \<open>
  The clause \<^verbatim>\<open>attribute == value\<close>: a comparison in the query for a column, a Python boolean
  (the same for every row) for any other attribute.
\<close>

fun clause :: "lib \<Rightarrow> attr \<Rightarrow> string \<Rightarrow> persona \<Rightarrow> bool" where
  "clause L (Column c) v p = sql_eq L (c p) v"
| "clause L (Plain cmp) v p = cmp v"

text \<open>
  \<^verbatim>\<open>filter_by\<close> turns each keyword into its clause, in order, and raises
  \<^verbatim>\<open>InvalidRequestError\<close> at the first keyword for which the attribute lookup fails.
\<close>

fun filter_by :: "lib \<Rightarrow> (string \<times> string) list \<Rightarrow> string + (persona \<Rightarrow> bool) list" where
  "filter_by L [] = Inr []"
| "filter_by L (kv # kvs) =
     (case getattr_Persona L (fst kv) of
        None \<Rightarrow> Inl (no_property_msg L (fst kv))
      | Some a \<Rightarrow>
          (case filter_by L kvs of
             Inl e \<Rightarrow> Inl e
           | Inr cs \<Rightarrow> Inr (clause L a (snd kv) # cs)))"

text \<open>\<^verbatim>\<open>.all()\<close>: the rows that satisfy every clause.\<close>

definition query_all :: "store \<Rightarrow> (persona \<Rightarrow> bool) list \<Rightarrow> persona list" where
  "query_all st cs = filter (\<lambda>p. list_all (\<lambda>c. c p) cs) (rows st)"

definition get_all_persons :: "lib \<Rightarrow> store \<Rightarrow> (string \<times> string) list \<Rightarrow> response" where
  "get_all_persons L st args =
     (case filter_by L (kwargs args) of
        Inl e \<Rightarrow> (Message e, 200)
      | Inr cs \<Rightarrow> (Items (map dump (query_all st cs)), 200))"

definition get_person_by_id :: "store \<Rightarrow> int \<Rightarrow> response" where
  "get_person_by_id st i =
     (case get_or_404 st i of
        None \<Rightarrow> page_not_found
      | Some persona \<Rightarrow> (Item (dump persona), 200))"

definition update_person ::
  "lib \<Rightarrow> date \<Rightarrow> store \<Rightarrow> int \<Rightarrow> (string \<times> json) list \<Rightarrow> response \<times> store" where
  "update_person L boot st i inp =
     (case load True (PersonaSchema L boot) inp of
        Inl e \<Rightarrow> ((Errors e, 400), st)
      | Inr d \<Rightarrow>
          (case get_or_404 st i of
             None \<Rightarrow> (page_not_found, st)
           | Some persona \<Rightarrow>
               (case update_commit st i persona (foldl setattr persona d) of
                  None \<Rightarrow> ((ServerError, 500), st)
                | Some st' \<Rightarrow> ((Item (dump (foldl setattr persona d)), 200), st'))))"

definition delete_person :: "store \<Rightarrow> int \<Rightarrow> response \<times> store" where
  "delete_person st i =
     (case get_or_404 st i of
        None \<Rightarrow> (page_not_found, st)
      | Some persona \<Rightarrow> ((Empty, 204), delete_commit st i))"

section \<open>Reading a load\<close>

text \<open>
  What one step of the loading loop does for one declared field: the messages stored under its
  name, if any.
\<close>

definition field_errors :: "bool \<Rightarrow> field \<Rightarrow> (string \<times> json) list \<Rightarrow> string list option" where
  "field_errors partial f inp =
     (case map_of inp (fname f) of
        None \<Rightarrow> if partial \<or> \<not> required f then None else Some [''Missing data for required field.'']
      | Some v \<Rightarrow> (case deser f v of Inl e \<Rightarrow> Some e | Inr x \<Rightarrow> None))"

text \<open>The messages a load reports under a field name; none when the load succeeds.\<close>

definition errors_for :: "errors + data \<Rightarrow> string \<Rightarrow> string list option" where
  "errors_for r k = (case r of Inl e \<Rightarrow> map_of e k | Inr d \<Rightarrow> None)"

text \<open>
  The constraints the table declares hold of the stored rows: the primary key and the e-mail
  address are unique, the five \<^verbatim>\<open>nullable=False\<close> columns are set, and every identifier was
  handed out by the engine.
\<close>

definition table_ok :: "store \<Rightarrow> bool" where
  "table_ok st =
     (distinct (map id_p (rows st))
      \<and> distinct (map correo_electronico (rows st))
      \<and> list_all not_null_ok (rows st)
      \<and> list_all (\<lambda>r. case id_p r of VInt n \<Rightarrow> n < next_id st | _ \<Rightarrow> False) (rows st))"

section \<open>An instance of the library parameters\<close>

text \<open>
  One instantiation of \<^typ>\<open>lib\<close>, for evaluating the model on concrete requests: ISO dates
  of the form \<^verbatim>\<open>YYYY-MM-DD\<close>, decimal integers with an optional minus sign, a simple test for
  an \<^verbatim>\<open>@\<close> with text on both sides, \<^verbatim>\<open>http://\<close> and \<^verbatim>\<open>https://\<close> addresses, the same
  integer and date readers for the engine, \<^verbatim>\<open>1\<close> and \<^verbatim>\<open>0\<close> for booleans, two inherited
  attributes that equal no text, and the message of the error.
\<close>

definition parse_nat :: "string \<Rightarrow> nat option" where
  "parse_nat s =
     (if s = [] \<or> \<not> list_all (in_range CHR ''0'' CHR ''9'') s then None
      else Some (foldl (\<lambda>a c. 10 * a + (of_char c - 48)) 0 s))"

definition days_in_month :: "nat \<Rightarrow> nat \<Rightarrow> nat" where
  "days_in_month y m =
     (if m = 2 then (if y mod 4 = 0 \<and> (y mod 100 \<noteq> 0 \<or> y mod 400 = 0) then 29 else 28)
      else if m \<in> {4, 6, 9, 11} then 30 else 31)"

definition sample_from_iso_date :: "string \<Rightarrow> date option" where
  "sample_from_iso_date s =
     (if length s = 10 \<and> s ! 4 = CHR ''-'' \<and> s ! 7 = CHR ''-'' then
        (case (parse_nat (take 4 s), parse_nat (take 2 (drop 5 s)), parse_nat (drop 8 s)) of
           (Some y, Some m, Some d) \<Rightarrow>
             if 1 \<le> y \<and> 1 \<le> m \<and> m \<le> 12 \<and> 1 \<le> d \<and> d \<le> days_in_month y m
             then Some (Date y m d) else None
         | _ \<Rightarrow> None)
      else None)"

definition sample_int_of_str :: "string \<Rightarrow> int option" where
  "sample_int_of_str s =
     (case s of
        [] \<Rightarrow> None
      | c # r \<Rightarrow> if c = CHR ''-'' then map_option (\<lambda>n. - int n) (parse_nat r)
                 else map_option int (parse_nat s))"

definition sample_email_ok :: "string \<Rightarrow> bool" where
  "sample_email_ok s =
     (takeWhile (\<lambda>c. c \<noteq> CHR ''@'') s \<noteq> [] \<and> 1 < length (dropWhile (\<lambda>c. c \<noteq> CHR ''@'') s))"

definition sample_url_ok :: "string \<Rightarrow> bool" where
  "sample_url_ok s =
     ((take 7 s = ''http://'' \<and> 7 < length s) \<or> (take 8 s = ''https://'' \<and> 8 < length s))"

definition sample_sql_bool :: "string \<Rightarrow> bool option" where
  "sample_sql_bool s =
     (if s = ''1'' then Some True else if s = ''0'' then Some False else None)"

definition sample_inherited_attr :: "string \<Rightarrow> (string \<Rightarrow> bool) option" where
  "sample_inherited_attr k =
     (if k = ''query'' \<or> k = ''metadata'' then Some (\<lambda>v. False) else None)"

definition sample_no_property_msg :: "string \<Rightarrow> string" where
  "sample_no_property_msg k =
     ''Entity namespace for '' @ [CHR 0x22] @ ''mapped class Persona->personas'' @ [CHR 0x22]
       @ '' has no property '' @ [CHR 0x22] @ k @ [CHR 0x22]"

definition sample_lib :: lib where
  "sample_lib = \<lparr>from_iso_date = sample_from_iso_date, int_of_str = sample_int_of_str,
     email_ok = sample_email_ok, url_ok = sample_url_ok,
     sql_int = sample_int_of_str, sql_date = sample_from_iso_date, sql_bool = sample_sql_bool,
     inherited_attr = sample_inherited_attr, no_property_msg = sample_no_property_msg\<rparr>"

section \<open>Sample data\<close>

text \<open>A stored row and a table holding it, for evaluating the handlers.\<close>

definition ana_row :: persona where
  "ana_row = \<lparr>id_p = VInt 1, nombre = VStr ''Ana Garcia'', apellido = VStr ''Garcia'',
     categoria = VStr ''A'', edad = VNone, correo_electronico = VStr ''ana@x.com'',
     url = VStr ''http://x.com'', fecha_nacimiento = VNone, es_activo = VBool True\<rparr>"

definition ana_store :: store where
  "ana_store = \<lparr>rows = [ana_row], next_id = 2\<rparr>"

definition luis_row :: persona where
  "luis_row = \<lparr>id_p = VInt 2, nombre = VStr ''Luis'', apellido = VStr ''Perez'',
     categoria = VStr ''B'', edad = VInt 34, correo_electronico = VStr ''luis@x.com'',
     url = VStr ''http://y.com'', fecha_nacimiento = VDate (Date 1990 5 17),
     es_activo = VBool True\<rparr>"

definition two_store :: store where
  "two_store = \<lparr>rows = [ana_row, luis_row], next_id = 3\<rparr>"

section \<open>What a pattern denotes\<close>

text \<open>
  The set of strings a pattern stands for, the reference against which the matcher is
  checked: \<open>reps A\<close> is any number of strings of \<open>A\<close>, one after the other.
\<close>

inductive_set reps :: "string set \<Rightarrow> string set" for A :: "string set" where
  reps_nil: "[] \<in> reps A"
| reps_app: "u \<in> A \<Longrightarrow> v \<in> reps A \<Longrightarrow> u @ v \<in> reps A"

fun lang :: "rexp \<Rightarrow> string set" where
  "lang (RRange lo hi) = {[c] | c. in_range lo hi c}"
| "lang (RChar c) = {[c]}"
| "lang REps = {[]}"
| "lang RNone = {}"
| "lang (RSeq r s) = {u @ v | u v. u \<in> lang r \<and> v \<in> lang s}"
| "lang (RAlt r s) = lang r \<union> lang s"
| "lang (RStar r) = reps (lang r)"

text \<open>
  The shape the specification gives in words: a capitalised word (one capital letter, then at
  least one small letter), followed by any number of further capitalised words, each after a
  single space.
\<close>

fun is_word :: "string \<Rightarrow> bool" where
  "is_word [] = False"
| "is_word (c # cs) =
     (in_range CHR ''A'' CHR ''Z'' c \<and> cs \<noteq> [] \<and> list_all (in_range CHR ''a'' CHR ''z'') cs)"

definition spec_name_shape :: "string \<Rightarrow> bool" where
  "spec_name_shape s =
     (\<exists>w ws. is_word w \<and> list_all is_word ws \<and> s = w @ concat (map (\<lambda>v. CHR '' '' # v) ws))"

section \<open>The filter in the words of the specification\<close>

text \<open>
  The names of the nine columns; the values a supplied text can stand for (the text itself, or
  the integer, date or boolean the engine reads it as); and the statement that a row agrees with
  a filter mapping: for every key the mapping supplies, the row's column of that name equals
  the supplied value. These follow the specification and are compared with what
  \<^const>\<open>filter_by\<close> and \<^const>\<open>query_all\<close> compute.
\<close>

definition column_names :: "string list" where
  "column_names = [''id'', ''nombre'', ''apellido'', ''categoria'', ''edad'',
     ''correo_electronico'', ''url'', ''fecha_nacimiento'', ''es_activo'']"

definition text_denotes :: "lib \<Rightarrow> string \<Rightarrow> pyval set" where
  "text_denotes L s =
     {VStr s} \<union> {VInt n | n. sql_int L s = Some n} \<union> {VDate d | d. sql_date L s = Some d}
       \<union> {VBool b | b. sql_bool L s = Some b}"

definition spec_filter_matches :: "lib \<Rightarrow> (string \<rightharpoonup> string) \<Rightarrow> persona \<Rightarrow> bool" where
  "spec_filter_matches L m r =
     ((\<forall>v. m ''id'' = Some v \<longrightarrow> id_p r \<in> text_denotes L v)
      \<and> (\<forall>v. m ''nombre'' = Some v \<longrightarrow> nombre r \<in> text_denotes L v)
      \<and> (\<forall>v. m ''apellido'' = Some v \<longrightarrow> apellido r \<in> text_denotes L v)
      \<and> (\<forall>v. m ''categoria'' = Some v \<longrightarrow> categoria r \<in> text_denotes L v)
      \<and> (\<forall>v. m ''edad'' = Some v \<longrightarrow> edad r \<in> text_denotes L v)
      \<and> (\<forall>v. m ''correo_electronico'' = Some v \<longrightarrow> correo_electronico r \<in> text_denotes L v)
      \<and> (\<forall>v. m ''url'' = Some v \<longrightarrow> url r \<in> text_denotes L v)
      \<and> (\<forall>v. m ''fecha_nacimiento'' = Some v \<longrightarrow> fecha_nacimiento r \<in> text_denotes L v)
      \<and> (\<forall>v. m ''es_activo'' = Some v \<longrightarrow> es_activo r \<in> text_denotes L v))"

section \<open>Facts about loading\<close>

lemma load_loop_step:
  "set (fst (load_loop p (g # gs) inp)) \<subseteq> ({fname g} \<times> UNIV) \<union> set (fst (load_loop p gs inp))"
proof -
  obtain errs ret where lr: "load_loop p gs inp = (errs, ret)" by (cases "load_loop p gs inp")
  show ?thesis
  proof (cases "map_of inp (fname g)")
    case None
    then show ?thesis using lr by auto
  next
    case (Some v)
    then show ?thesis using lr by (cases "deser g v") auto
  qed
qed

lemma load_loop_keys: "fst ` set (fst (load_loop p fs inp)) \<subseteq> fname ` set fs"
proof (induction fs)
  case Nil
  then show ?case by simp
next
  case (Cons g gs)
  have "fst ` set (fst (load_loop p (g # gs) inp))
          \<subseteq> fst ` (({fname g} \<times> UNIV) \<union> set (fst (load_loop p gs inp)))"
    using load_loop_step[of p g gs inp] by (rule image_mono)
  also have "\<dots> \<subseteq> insert (fname g) (fst ` set (fst (load_loop p gs inp)))"
    by (simp add: image_Un subset_insertI2 fst_image_times)
  also have "\<dots> \<subseteq> fname ` set (g # gs)" using Cons.IH by auto
  finally show ?case .
qed

lemma load_loop_errors:
  "distinct (map fname fs) \<Longrightarrow> f \<in> set fs \<Longrightarrow>
   map_of (fst (load_loop p fs inp)) (fname f) = field_errors p f inp"
proof (induction fs)
  case Nil
  then show ?case by simp
next
  case (Cons g gs)
  obtain errs ret where lr: "load_loop p gs inp = (errs, ret)" by (cases "load_loop p gs inp")
  have keys: "fst ` set errs \<subseteq> fname ` set gs" using load_loop_keys[of p gs inp] lr by simp
  have gnew: "fname g \<notin> fname ` set gs" using Cons.prems(1) by simp
  show ?case
  proof (cases "f = g")
    case True
    have "fname g \<notin> fst ` set errs" using keys gnew by blast
    then have none: "map_of errs (fname g) = None" by (simp add: map_of_eq_None_iff)
    show ?thesis
    proof (cases "map_of inp (fname g)")
      case None
      then show ?thesis using True lr none by (simp add: field_errors_def)
    next
      case (Some v)
      then show ?thesis using True lr none by (cases "deser g v") (simp_all add: field_errors_def)
    qed
  next
    case False
    then have fin: "f \<in> set gs" using Cons.prems(2) by simp
    then have "fname f \<in> fname ` set gs" by (rule imageI)
    then have ne: "fname f \<noteq> fname g" using gnew by metis
    have dist: "distinct (map fname gs)" using Cons.prems(1) by simp
    have ih: "map_of errs (fname f) = field_errors p f inp" using Cons.IH[OF dist fin] lr by simp
    show ?thesis
    proof (cases "map_of inp (fname g)")
      case None
      then show ?thesis using lr ih ne by simp
    next
      case (Some v)
      then show ?thesis using lr ih ne by (cases "deser g v") simp_all
    qed
  qed
qed

lemma unknown_errors_keys: "k \<in> fname ` set fs \<Longrightarrow> map_of (unknown_errors fs inp) k = None"
  by (auto simp: unknown_errors_def map_of_eq_None_iff)

lemma PersonaSchema_distinct: "distinct (map fname (PersonaSchema L boot))"
  by (simp add: PersonaSchema_def nombre_field_def apellido_field_def categoria_field_def
      edad_field_def correo_electronico_field_def url_field_def fecha_nacimiento_field_def)

lemma load_errors_for:
  assumes "distinct (map fname fs)" "f \<in> set fs"
  shows "errors_for (load p fs inp) (fname f) = field_errors p f inp"
proof -
  obtain errs ret where lr: "load_loop p fs inp = (errs, ret)" by (cases "load_loop p fs inp")
  have m: "map_of errs (fname f) = field_errors p f inp"
    using load_loop_errors[OF assms, of p inp] lr by simp
  have u: "map_of (unknown_errors fs inp) (fname f) = None"
    using unknown_errors_keys assms(2) by blast
  have app: "map_of (errs @ unknown_errors fs inp) (fname f) = map_of errs (fname f)"
    using u by (cases "map_of errs (fname f)") (simp_all add: map_add_def)
  show ?thesis
  proof (cases "errs @ unknown_errors fs inp = []")
    case True
    then have "errs = []" by simp
    then have none: "field_errors p f inp = None" using m by simp
    have "load p fs inp = Inr ret" using True lr unfolding load_def by simp
    then show ?thesis using none unfolding errors_for_def by simp
  next
    case False
    have "load p fs inp = Inl (errs @ unknown_errors fs inp)"
      using False lr unfolding load_def by simp
    then show ?thesis using app m unfolding errors_for_def by simp
  qed
qed

lemma load_rejects_iff:
  assumes "distinct (map fname fs)"
  shows "(\<exists>e. load p fs inp = Inl e) =
         ((\<exists>f\<in>set fs. field_errors p f inp \<noteq> None) \<or> (\<exists>k\<in>fst ` set inp. k \<notin> fname ` set fs))"
proof -
  obtain errs ret where lr: "load_loop p fs inp = (errs, ret)" by (cases "load_loop p fs inp")
  have l: "(\<exists>e. load p fs inp = Inl e) = (errs \<noteq> [] \<or> unknown_errors fs inp \<noteq> [])"
    using lr unfolding load_def by auto
  have keys: "fst ` set errs \<subseteq> fname ` set fs" using load_loop_keys[of p fs inp] lr by simp
  have m: "\<And>f. f \<in> set fs \<Longrightarrow> map_of errs (fname f) = field_errors p f inp"
    using load_loop_errors[OF assms, of _ p inp] lr by simp
  have a: "(errs \<noteq> []) = (\<exists>f\<in>set fs. field_errors p f inp \<noteq> None)"
  proof
    assume "errs \<noteq> []"
    then obtain k e where ke: "(k, e) \<in> set errs" by (cases errs) auto
    then have "k \<in> fst ` set errs" by force
    then obtain f where f: "f \<in> set fs" "k = fname f" using keys by blast
    have "map_of errs k \<noteq> None" using ke by (metis map_of_eq_None_iff fst_conv image_eqI)
    then show "\<exists>f\<in>set fs. field_errors p f inp \<noteq> None" using f m by auto
  next
    assume "\<exists>f\<in>set fs. field_errors p f inp \<noteq> None"
    then obtain f where "f \<in> set fs" "map_of errs (fname f) \<noteq> None" using m by auto
    then show "errs \<noteq> []" by auto
  qed
  have b: "(unknown_errors fs inp \<noteq> []) = (\<exists>k\<in>fst ` set inp. k \<notin> fname ` set fs)"
    unfolding unknown_errors_def by (auto simp: filter_empty_conv)
  show ?thesis using l a b by simp
qed

lemma load_rejects_nonempty: "load p fs inp = Inl e \<Longrightarrow> e \<noteq> []"
  unfolding load_def by (auto split: prod.splits if_splits)

lemma edad_field_in_schema: "edad_field L \<in> set (PersonaSchema L boot)"
  by (simp add: PersonaSchema_def)

lemma edad_field_name: "fname (edad_field L) = ''edad''"
  by (simp add: edad_field_def)

lemma get_or_404_None: "(get_or_404 st i = None) = (VInt i \<notin> id_p ` set (rows st))"
  unfolding get_or_404_def find_None_iff image_iff by metis

lemma unknown_errors_lookup:
  assumes "k \<in> fst ` set inp" "k \<notin> fname ` set fs"
  shows "map_of (unknown_errors fs inp) k = Some [''Unknown field.'']"
proof -
  have "k \<in> set (filter (\<lambda>k. k \<notin> set (map fname fs)) (remdups (map fst inp)))"
    using assms by simp
  then show ?thesis unfolding unknown_errors_def
    by (induction "filter (\<lambda>k. k \<notin> set (map fname fs)) (remdups (map fst inp))") (auto simp: map_of_map_restrict)
qed

section \<open>Age bounds\<close>

lemmas edad_defs = field_errors_def edad_field_def deserialize_def run_validators_def
  edad_validators_def Range_min_def Range_max_def edad_min_error_def edad_max_error_def

text \<open>
  Claim C3. An integer age in a creation input is accepted exactly when it lies between 18 and
  50, both included. The lower and the upper bound are two validators, both run, each with its
  own message, and the two messages differ.
\<close>

theorem edad_accepted_iff_18_to_50:
  assumes "map_of inp ''edad'' = Some (JInt n)"
  shows "errors_for (load False (PersonaSchema L boot) inp) ''edad''
           = (if n < 18 then Some [edad_min_error]
              else if 50 < n then Some [edad_max_error] else None)
         \<and> (field_errors False (edad_field L) inp = None) = (18 \<le> n \<and> n \<le> 50)
         \<and> run_validators edad_validators n
             = Range_min 18 edad_min_error n @ Range_max 50 edad_max_error n
         \<and> edad_min_error \<noteq> edad_max_error"
proof -
  have fe: "field_errors False (edad_field L) inp
              = (if n < 18 then Some [edad_min_error]
                 else if 50 < n then Some [edad_max_error] else None)"
    using assms by (simp add: edad_defs)
  have "errors_for (load False (PersonaSchema L boot) inp) (fname (edad_field L))
          = field_errors False (edad_field L) inp"
    by (rule load_errors_for[OF PersonaSchema_distinct edad_field_in_schema])
  then have a: "errors_for (load False (PersonaSchema L boot) inp) ''edad''
          = (if n < 18 then Some [edad_min_error]
             else if 50 < n then Some [edad_max_error] else None)"
    using fe by (simp add: edad_field_name)
  have b: "(field_errors False (edad_field L) inp = None) = (18 \<le> n \<and> n \<le> 50)"
    using fe by auto
  have c: "run_validators edad_validators n
             = Range_min 18 edad_min_error n @ Range_max 50 edad_max_error n"
    by (simp add: run_validators_def edad_validators_def)
  have d: "edad_min_error \<noteq> edad_max_error"
    by (simp add: edad_min_error_def edad_max_error_def)
  show ?thesis using a b c d by blast
qed

theorem edad_accepted_iff_18_to_50_witness:
  "errors_for (load False (PersonaSchema sample_lib (Date 2024 1 1)) [(''edad'', JInt 17)]) ''edad''
     = Some [''Debe ser mayor de edad'']
   \<and> errors_for (load False (PersonaSchema sample_lib (Date 2024 1 1)) [(''edad'', JInt 51)]) ''edad''
     = Some [''No debe ser una persona mayor de edad'']
   \<and> errors_for (load False (PersonaSchema sample_lib (Date 2024 1 1)) [(''edad'', JInt 18)]) ''edad''
     = None
   \<and> errors_for (load False (PersonaSchema sample_lib (Date 2024 1 1)) [(''edad'', JInt 50)]) ''edad''
     = None"
  using edad_accepted_iff_18_to_50[of "[(''edad'', JInt 17)]" 17 sample_lib "Date 2024 1 1"]
        edad_accepted_iff_18_to_50[of "[(''edad'', JInt 51)]" 51 sample_lib "Date 2024 1 1"]
        edad_accepted_iff_18_to_50[of "[(''edad'', JInt 18)]" 18 sample_lib "Date 2024 1 1"]
        edad_accepted_iff_18_to_50[of "[(''edad'', JInt 50)]" 50 sample_lib "Date 2024 1 1"]
  by (simp add: edad_min_error_def edad_max_error_def)

lemma load_reports_all:
  assumes dist: "distinct (map fname fs)" and l: "load p fs inp = Inl e"
  shows "(\<forall>f\<in>set fs. map_of e (fname f) = field_errors p f inp)
         \<and> (\<forall>k\<in>fst ` set inp. k \<notin> fname ` set fs \<longrightarrow> map_of e k = Some [''Unknown field.''])"
proof -
  obtain errs ret where lr: "load_loop p fs inp = (errs, ret)" by (cases "load_loop p fs inp")
  have e: "e = errs @ unknown_errors fs inp"
    using l lr unfolding load_def by (simp split: if_splits)
  have keys: "fst ` set errs \<subseteq> fname ` set fs" using load_loop_keys[of p fs inp] lr by simp
  have a: "\<forall>f\<in>set fs. map_of e (fname f) = field_errors p f inp"
  proof
    fix f assume f: "f \<in> set fs"
    have "errors_for (load p fs inp) (fname f) = field_errors p f inp"
      by (rule load_errors_for[OF dist f])
    then show "map_of e (fname f) = field_errors p f inp" using l by (simp add: errors_for_def)
  qed
  have b: "\<forall>k\<in>fst ` set inp. k \<notin> fname ` set fs \<longrightarrow> map_of e k = Some [''Unknown field.'']"
  proof (intro ballI impI)
    fix k assume k: "k \<in> fst ` set inp" "k \<notin> fname ` set fs"
    have "k \<notin> fst ` set errs" using keys k(2) by blast
    then have none: "map_of errs k = None" by (simp add: map_of_eq_None_iff)
    have "map_of (unknown_errors fs inp) k = Some [''Unknown field.'']"
      by (rule unknown_errors_lookup[OF k])
    then show "map_of e k = Some [''Unknown field.'']" using none e by (simp add: map_add_def)
  qed
  show ?thesis using a b by blast
qed

section \<open>Rejected requests\<close>

text \<open>
  Claim C2. When at least one field of a creation input is invalid (a declared field fails, or
  the input has a key that is no declared field), the load raises a non-empty mapping that
  holds the messages of every invalid field, not only of the first, and \<^verbatim>\<open>create_person\<close>
  answers 400 with that mapping and leaves the table as it was.
\<close>

theorem create_person_rejects_invalid:
  assumes "(\<exists>f\<in>set (PersonaSchema L boot). field_errors False f inp \<noteq> None)
           \<or> (\<exists>k\<in>fst ` set inp. k \<notin> fname ` set (PersonaSchema L boot))"
  shows "\<exists>e. load False (PersonaSchema L boot) inp = Inl e \<and> e \<noteq> []
           \<and> (\<forall>f\<in>set (PersonaSchema L boot). map_of e (fname f) = field_errors False f inp)
           \<and> (\<forall>k\<in>fst ` set inp. k \<notin> fname ` set (PersonaSchema L boot)
                 \<longrightarrow> map_of e k = Some [''Unknown field.''])
           \<and> create_person L boot st inp = ((Errors e, 400), st)"
proof -
  obtain e where l: "load False (PersonaSchema L boot) inp = Inl e"
    using assms load_rejects_iff[OF PersonaSchema_distinct, of False L boot inp] by blast
  have ne: "e \<noteq> []" using l by (rule load_rejects_nonempty)
  have c: "create_person L boot st inp = ((Errors e, 400), st)"
    using l by (simp add: create_person_def)
  show ?thesis using l ne c load_reports_all[OF PersonaSchema_distinct l] by blast
qed

theorem create_person_rejects_invalid_witness:
  "((\<exists>f\<in>set (PersonaSchema sample_lib (Date 2024 1 1)).
        field_errors False f [(''nombre'', JStr ''john''), (''edad'', JInt 51)] \<noteq> None)
     \<or> (\<exists>k\<in>fst ` set [(''nombre'', JStr ''john''), (''edad'', JInt 51)].
           k \<notin> fname ` set (PersonaSchema sample_lib (Date 2024 1 1))))
   \<and> (\<exists>e. map_of e ''nombre'' = Some [nombre_regexp_error]
          \<and> map_of e ''edad'' = Some [edad_max_error]
          \<and> create_person sample_lib (Date 2024 1 1) ana_store
               [(''nombre'', JStr ''john''), (''edad'', JInt 51)] = ((Errors e, 400), ana_store))"
proof -
  let ?inp = "[(''nombre'', JStr ''john''), (''edad'', JInt 51)]"
  have n: "field_errors False nombre_field ?inp = Some [nombre_regexp_error]"
    by code_simp
  have a: "field_errors False (edad_field sample_lib) ?inp = Some [edad_max_error]"
    by code_simp
  have nin: "nombre_field \<in> set (PersonaSchema sample_lib (Date 2024 1 1))"
    by (simp add: PersonaSchema_def)
  have ain: "edad_field sample_lib \<in> set (PersonaSchema sample_lib (Date 2024 1 1))"
    by (simp add: PersonaSchema_def)
  have h: "(\<exists>f\<in>set (PersonaSchema sample_lib (Date 2024 1 1)). field_errors False f ?inp \<noteq> None)
     \<or> (\<exists>k\<in>fst ` set ?inp. k \<notin> fname ` set (PersonaSchema sample_lib (Date 2024 1 1)))"
    using n nin by auto
  obtain e where e: "\<forall>f\<in>set (PersonaSchema sample_lib (Date 2024 1 1)).
                        map_of e (fname f) = field_errors False f ?inp"
      "create_person sample_lib (Date 2024 1 1) ana_store ?inp = ((Errors e, 400), ana_store)"
    using create_person_rejects_invalid[OF h, of ana_store] by blast
  have "map_of e ''nombre'' = Some [nombre_regexp_error]"
    using e(1) nin n by (force simp: nombre_field_def)
  moreover have "map_of e ''edad'' = Some [edad_max_error]"
    using e(1) ain a by (force simp: edad_field_def)
  ultimately show ?thesis using h e(2) by blast
qed

text \<open>
  Claim C10. An update whose body fails validation is answered 400 with the mapping of
  messages for every identifier, stored or not: the body is loaded before the row is looked
  up, so the answer is never the 404 one, and the table is unchanged.
\<close>

theorem update_person_validates_before_lookup:
  assumes "(\<exists>f\<in>set (PersonaSchema L boot). field_errors True f inp \<noteq> None)
           \<or> (\<exists>k\<in>fst ` set inp. k \<notin> fname ` set (PersonaSchema L boot))"
  shows "\<exists>e. load True (PersonaSchema L boot) inp = Inl e \<and> e \<noteq> []
           \<and> (\<forall>f\<in>set (PersonaSchema L boot). map_of e (fname f) = field_errors True f inp)
           \<and> update_person L boot st i inp = ((Errors e, 400), st)
           \<and> update_person L boot st i inp \<noteq> (page_not_found, st)"
proof -
  obtain e where l: "load True (PersonaSchema L boot) inp = Inl e"
    using assms load_rejects_iff[OF PersonaSchema_distinct, of True L boot inp] by blast
  have ne: "e \<noteq> []" using l by (rule load_rejects_nonempty)
  have c: "update_person L boot st i inp = ((Errors e, 400), st)"
    using l by (simp add: update_person_def)
  have d: "update_person L boot st i inp \<noteq> (page_not_found, st)"
    using c by (simp add: page_not_found_def)
  show ?thesis using l ne c d load_reports_all[OF PersonaSchema_distinct l] by blast
qed

theorem update_person_validates_before_lookup_witness:
  "((\<exists>f\<in>set (PersonaSchema sample_lib (Date 2024 1 1)).
        field_errors True f [(''edad'', JInt 17)] \<noteq> None)
     \<or> (\<exists>k\<in>fst ` set [(''edad'', JInt 17)].
           k \<notin> fname ` set (PersonaSchema sample_lib (Date 2024 1 1))))
   \<and> VInt 99 \<notin> id_p ` set (rows ana_store)
   \<and> (\<exists>e. map_of e ''edad'' = Some [edad_min_error]
          \<and> update_person sample_lib (Date 2024 1 1) ana_store 99 [(''edad'', JInt 17)]
               = ((Errors e, 400), ana_store))"
proof -
  let ?inp = "[(''edad'', JInt 17)]"
  have a: "field_errors True (edad_field sample_lib) ?inp = Some [edad_min_error]"
    by code_simp
  have ain: "edad_field sample_lib \<in> set (PersonaSchema sample_lib (Date 2024 1 1))"
    by (simp add: PersonaSchema_def)
  have h: "(\<exists>f\<in>set (PersonaSchema sample_lib (Date 2024 1 1)). field_errors True f ?inp \<noteq> None)
     \<or> (\<exists>k\<in>fst ` set ?inp. k \<notin> fname ` set (PersonaSchema sample_lib (Date 2024 1 1)))"
    using a ain by auto
  have absent: "VInt 99 \<notin> id_p ` set (rows ana_store)"
    by (simp add: ana_store_def ana_row_def)
  obtain e where e: "\<forall>f\<in>set (PersonaSchema sample_lib (Date 2024 1 1)).
                        map_of e (fname f) = field_errors True f ?inp"
      "update_person sample_lib (Date 2024 1 1) ana_store 99 ?inp = ((Errors e, 400), ana_store)"
    using update_person_validates_before_lookup[OF h, of ana_store 99] by blast
  have "map_of e ''edad'' = Some [edad_min_error]"
    using e(1) ain a by (force simp: edad_field_def)
  then show ?thesis using h absent e(2) by blast
qed

section \<open>Missing rows\<close>

text \<open>
  Claim C7. An update with a valid partial body for an identifier that no row carries is
  answered 404 with the fixed message, and the table after the request is the table before.
\<close>

theorem update_person_missing_id:
  assumes "VInt i \<notin> id_p ` set (rows st)"
      and "load True (PersonaSchema L boot) inp = Inr d"
  shows "update_person L boot st i inp = ((Message ''Persona no encontrada'', 404), st)"
proof -
  have "get_or_404 st i = None" using assms(1) get_or_404_None[of st i] by simp
  then show ?thesis using assms(2) by (simp add: update_person_def page_not_found_def)
qed

theorem update_person_missing_id_witness:
  "VInt 99 \<notin> id_p ` set (rows ana_store)
   \<and> load True (PersonaSchema sample_lib (Date 2024 1 1)) [(''categoria'', JStr ''B'')]
       = Inr [(''categoria'', VStr ''B'')]
   \<and> update_person sample_lib (Date 2024 1 1) ana_store 99 [(''categoria'', JStr ''B'')]
       = ((Message ''Persona no encontrada'', 404), ana_store)"
proof -
  have absent: "VInt 99 \<notin> id_p ` set (rows ana_store)"
    by (simp add: ana_store_def ana_row_def)
  have l: "load True (PersonaSchema sample_lib (Date 2024 1 1)) [(''categoria'', JStr ''B'')]
             = Inr [(''categoria'', VStr ''B'')]"
    by code_simp
  show ?thesis using absent l update_person_missing_id[OF absent l] by simp
qed

lemma delete_commit_ids: "VInt i \<notin> id_p ` set (rows (delete_commit st i))"
  by (auto simp: delete_commit_def)

lemma delete_person_absent:
  assumes "VInt i \<notin> id_p ` set (rows st)"
  shows "delete_person st i = ((Message ''Persona no encontrada'', 404), st)"
proof -
  have "get_or_404 st i = None" using assms get_or_404_None[of st i] by simp
  then show ?thesis by (simp add: delete_person_def page_not_found_def)
qed

lemma delete_person_present:
  assumes "VInt i \<in> id_p ` set (rows st)"
  shows "delete_person st i = ((Empty, 204), delete_commit st i)"
proof -
  have "get_or_404 st i \<noteq> None" using assms get_or_404_None[of st i] by simp
  then obtain p where "get_or_404 st i = Some p" by auto
  then show ?thesis by (simp add: delete_person_def)
qed

text \<open>
  Claim C6. Deleting an identifier that no row carries is answered 404 with the fixed message
  and changes nothing; deleting a stored identifier is answered 204; and whatever the first
  delete did, a second delete of the same identifier is answered 404.
\<close>

theorem delete_person_missing_id:
  "(VInt i \<notin> id_p ` set (rows st)
      \<longrightarrow> delete_person st i = ((Message ''Persona no encontrada'', 404), st))
   \<and> (VInt i \<in> id_p ` set (rows st)
      \<longrightarrow> delete_person st i = ((Empty, 204), delete_commit st i))
   \<and> delete_person (snd (delete_person st i)) i
       = ((Message ''Persona no encontrada'', 404), snd (delete_person st i))"
proof -
  have gone: "VInt i \<notin> id_p ` set (rows (snd (delete_person st i)))"
  proof (cases "VInt i \<in> id_p ` set (rows st)")
    case True
    then show ?thesis using delete_person_present[OF True] delete_commit_ids[of i st] by simp
  next
    case False
    then show ?thesis using delete_person_absent[OF False] by simp
  qed
  show ?thesis
    using delete_person_absent[of i st] delete_person_present[of i st]
      delete_person_absent[OF gone] by blast
qed

theorem delete_person_missing_id_witness:
  "VInt 99 \<notin> id_p ` set (rows ana_store)
   \<and> delete_person ana_store 99 = ((Message ''Persona no encontrada'', 404), ana_store)
   \<and> VInt 1 \<in> id_p ` set (rows ana_store)
   \<and> delete_person ana_store 1 = ((Empty, 204), \<lparr>rows = [], next_id = 2\<rparr>)
   \<and> delete_person \<lparr>rows = [], next_id = 2\<rparr> 1
       = ((Message ''Persona no encontrada'', 404), \<lparr>rows = [], next_id = 2\<rparr>)"
proof -
  have absent: "VInt 99 \<notin> id_p ` set (rows ana_store)"
    by (simp add: ana_store_def ana_row_def)
  have present: "VInt 1 \<in> id_p ` set (rows ana_store)"
    by (simp add: ana_store_def ana_row_def)
  have dc: "delete_commit ana_store 1 = \<lparr>rows = [], next_id = 2\<rparr>"
    by (simp add: delete_commit_def ana_store_def ana_row_def)
  have d99: "delete_person ana_store 99 = ((Message ''Persona no encontrada'', 404), ana_store)"
    using delete_person_missing_id[of 99 ana_store] absent by blast
  have d1: "delete_person ana_store 1 = ((Empty, 204), \<lparr>rows = [], next_id = 2\<rparr>)"
    using delete_person_missing_id[of 1 ana_store] present dc by simp
  have "delete_person (snd (delete_person ana_store 1)) 1
          = ((Message ''Persona no encontrada'', 404), snd (delete_person ana_store 1))"
    using delete_person_missing_id[of 1 ana_store] by blast
  then have d2: "delete_person \<lparr>rows = [], next_id = 2\<rparr> 1
       = ((Message ''Persona no encontrada'', 404), \<lparr>rows = [], next_id = 2\<rparr>)"
    unfolding d1 by simp
  show ?thesis using absent present d99 d1 d2 by blast
qed

lemma fecha_nacimiento_field_in_schema:
  "fecha_nacimiento_field L boot \<in> set (PersonaSchema L boot)"
  by (simp add: PersonaSchema_def)

section \<open>The date of birth\<close>

text \<open>
  Claim C1. The claim compares the date of birth with the current date of each validation
  call. The validator holds the date on which the class body ran: a date of birth \<open>d\<close> is
  refused exactly when it is later than \<open>boot\<close>, whatever the date of the request is. So a
  process started on one day refuses, on the next day, a date of birth equal to that next day.
\<close>

theorem fecha_nacimiento_bound_is_process_start:
  assumes "map_of inp ''fecha_nacimiento'' = Some (JStr s)"
      and "s \<noteq> []" and "from_iso_date L s = Some d"
  shows "errors_for (load partial (PersonaSchema L boot) inp) ''fecha_nacimiento''
           = (if date_gt d boot then Some [fecha_nacimiento_error] else None)"
proof -
  have fe: "field_errors partial (fecha_nacimiento_field L boot) inp
              = (if date_gt d boot then Some [fecha_nacimiento_error] else None)"
    using assms
    by (simp add: field_errors_def fecha_nacimiento_field_def deserialize_def
        run_validators_def fecha_nacimiento_validators_def Range_max_date_def)
  have "errors_for (load partial (PersonaSchema L boot) inp)
          (fname (fecha_nacimiento_field L boot))
          = field_errors partial (fecha_nacimiento_field L boot) inp"
    by (rule load_errors_for[OF PersonaSchema_distinct fecha_nacimiento_field_in_schema])
  then show ?thesis using fe by (simp add: fecha_nacimiento_field_def)
qed

theorem fecha_nacimiento_today_rejected_next_day:
  "map_of [(''fecha_nacimiento'', JStr ''2024-01-02'')] ''fecha_nacimiento''
     = Some (JStr ''2024-01-02'')
   \<and> from_iso_date sample_lib ''2024-01-02'' = Some (Date 2024 1 2)
   \<and> date_gt (Date 2024 1 2) (Date 2024 1 1)
   \<and> errors_for (load True (PersonaSchema sample_lib (Date 2024 1 1))
         [(''fecha_nacimiento'', JStr ''2024-01-02'')]) ''fecha_nacimiento''
       = Some [''La fecha de nacimiento no puede ser futura'']"
proof -
  have p: "from_iso_date sample_lib ''2024-01-02'' = Some (Date 2024 1 2)"
    by code_simp
  have m: "map_of [(''fecha_nacimiento'', JStr ''2024-01-02'')] ''fecha_nacimiento''
     = Some (JStr ''2024-01-02'')" by simp
  have ne: "''2024-01-02'' \<noteq> []" by simp
  show ?thesis
    using p m fecha_nacimiento_bound_is_process_start[OF m ne p, of True "Date 2024 1 1"]
    by (simp add: fecha_nacimiento_error_def)
qed

section \<open>Listing with a filter\<close>

lemma map_of_filter_key:
  "map_of (filter (\<lambda>kv'. fst kv' \<noteq> a) xs) k = (if k = a then None else map_of xs k)"
  by (induction xs) auto

lemma kwargs_set: "((k, v) \<in> set (kwargs args)) = (map_of args k = Some v)"
proof (induction args arbitrary: k v rule: kwargs.induct)
  case 1
  then show ?case by simp
next
  case (2 kv rest)
  show ?case
  proof (cases "k = fst kv")
    case True
    have "(k, v) \<notin> set (kwargs (filter (\<lambda>kv'. fst kv' \<noteq> fst kv) rest))"
      using 2[of k v] True by (simp add: map_of_filter_key)
    then show ?thesis using True by (cases kv) auto
  next
    case False
    then show ?thesis using 2[of k v] by (cases kv) (auto simp: map_of_filter_key)
  qed
qed

lemma kwargs_keys: "fst ` set (kwargs args) = fst ` set args"
proof -
  have "\<And>k. (k \<in> fst ` set (kwargs args)) = (k \<in> fst ` set args)"
  proof -
    fix k
    have "(k \<in> fst ` set (kwargs args)) = (\<exists>v. (k, v) \<in> set (kwargs args))" by force
    also have "\<dots> = (\<exists>v. map_of args k = Some v)" by (simp add: kwargs_set)
    also have "\<dots> = (k \<in> fst ` set args)"
      using map_of_eq_None_iff[of args k] by auto
    finally show "(k \<in> fst ` set (kwargs args)) = (k \<in> fst ` set args)" .
  qed
  then show ?thesis by blast
qed

lemma sql_eq_denotes: "sql_eq L x s = (x \<in> text_denotes L s)"
  by (cases x) (auto simp: text_denotes_def)

lemma column_None_iff: "(column k = None) = (k \<notin> set column_names)"
  by (simp add: column_def column_names_def)

lemma getattr_Persona_None_iff:
  "(getattr_Persona L k = None)
     = (k \<notin> set column_names \<and> k \<noteq> ''__tablename__'' \<and> inherited_attr L k = None)"
proof (cases "column k")
  case None
  then show ?thesis using column_None_iff[of k] by (simp add: getattr_Persona_def)
next
  case (Some c)
  then show ?thesis using column_None_iff[of k] by (simp add: getattr_Persona_def)
qed

lemma getattr_Persona_columns:
  "getattr_Persona L ''id'' = Some (Column id_p)"
  "getattr_Persona L ''nombre'' = Some (Column nombre)"
  "getattr_Persona L ''apellido'' = Some (Column apellido)"
  "getattr_Persona L ''categoria'' = Some (Column categoria)"
  "getattr_Persona L ''edad'' = Some (Column edad)"
  "getattr_Persona L ''correo_electronico'' = Some (Column correo_electronico)"
  "getattr_Persona L ''url'' = Some (Column url)"
  "getattr_Persona L ''fecha_nacimiento'' = Some (Column fecha_nacimiento)"
  "getattr_Persona L ''es_activo'' = Some (Column es_activo)"
  by (simp_all add: getattr_Persona_def column_def)

lemma filter_by_resolved:
  "\<forall>kv\<in>set kvs. getattr_Persona L (fst kv) \<noteq> None \<Longrightarrow>
   \<exists>cs. filter_by L kvs = Inr cs
        \<and> (\<forall>p. list_all (\<lambda>c. c p) cs
              = (\<forall>kv\<in>set kvs. \<exists>a. getattr_Persona L (fst kv) = Some a \<and> clause L a (snd kv) p))"
proof (induction kvs)
  case Nil
  then show ?case by simp
next
  case (Cons kv kvs)
  obtain a where a: "getattr_Persona L (fst kv) = Some a" using Cons.prems by auto
  obtain cs where cs: "filter_by L kvs = Inr cs"
    "\<forall>p. list_all (\<lambda>c. c p) cs
        = (\<forall>kv\<in>set kvs. \<exists>a. getattr_Persona L (fst kv) = Some a \<and> clause L a (snd kv) p)"
    using Cons.IH Cons.prems by auto
  have "filter_by L (kv # kvs) = Inr (clause L a (snd kv) # cs)"
    using a cs(1) by simp
  moreover have "\<forall>p. list_all (\<lambda>c. c p) (clause L a (snd kv) # cs)
      = (\<forall>kv'\<in>set (kv # kvs). \<exists>a. getattr_Persona L (fst kv') = Some a \<and> clause L a (snd kv') p)"
    using a cs(2) by simp
  ultimately show ?case by blast
qed


lemma columns_match_spec:
  assumes "fst ` set args \<subseteq> set column_names"
  shows "(\<forall>k v. map_of args k = Some v
            \<longrightarrow> (\<exists>a. getattr_Persona L k = Some a \<and> clause L a v r))
         = spec_filter_matches L (map_of args) r"
proof -
  have dom: "\<And>k v. map_of args k = Some v \<Longrightarrow> k \<in> set column_names"
  proof -
    fix k v assume "map_of args k = Some v"
    then have "(k, v) \<in> set args" by (rule map_of_SomeD)
    then have "k \<in> fst ` set args" by force
    then show "k \<in> set column_names" using assms by blast
  qed
  have "(\<forall>k v. map_of args k = Some v
            \<longrightarrow> (\<exists>a. getattr_Persona L k = Some a \<and> clause L a v r))
        = (\<forall>k\<in>set column_names. \<forall>v. map_of args k = Some v
            \<longrightarrow> (\<exists>a. getattr_Persona L k = Some a \<and> clause L a v r))"
    using dom by blast
  also have "\<dots> = spec_filter_matches L (map_of args) r"
    by (simp add: column_names_def spec_filter_matches_def getattr_Persona_columns
        sql_eq_denotes)
  finally show ?thesis .
qed

text \<open>
  Claim C8. When every key of the query string is the name of a column, the list request is
  answered 200 with exactly the rows, serialised field by field, in which every supplied key
  equals the value supplied for it; with no key at all it returns every row.
\<close>

theorem get_all_persons_equality_conjunction:
  assumes "fst ` set args \<subseteq> set column_names"
  shows "get_all_persons L st args
           = (Items (map (\<lambda>r. [(''id'', serialize (id_p r)), (''nombre'', serialize (nombre r)),
                   (''apellido'', serialize (apellido r)),
                   (''categoria'', serialize (categoria r)),
                   (''edad'', serialize (edad r)),
                   (''correo_electronico'', serialize (correo_electronico r)),
                   (''url'', serialize (url r)),
                   (''fecha_nacimiento'', serialize (fecha_nacimiento r))])
                (filter (spec_filter_matches L (map_of args)) (rows st))), 200)
         \<and> get_all_persons L st []
           = (Items (map (\<lambda>r. [(''id'', serialize (id_p r)), (''nombre'', serialize (nombre r)),
                   (''apellido'', serialize (apellido r)),
                   (''categoria'', serialize (categoria r)),
                   (''edad'', serialize (edad r)),
                   (''correo_electronico'', serialize (correo_electronico r)),
                   (''url'', serialize (url r)),
                   (''fecha_nacimiento'', serialize (fecha_nacimiento r))]) (rows st)), 200)"
proof -
  have d: "dump = (\<lambda>r. [(''id'', serialize (id_p r)), (''nombre'', serialize (nombre r)),
                   (''apellido'', serialize (apellido r)),
                   (''categoria'', serialize (categoria r)),
                   (''edad'', serialize (edad r)),
                   (''correo_electronico'', serialize (correo_electronico r)),
                   (''url'', serialize (url r)),
                   (''fecha_nacimiento'', serialize (fecha_nacimiento r))])"
    by (rule ext) (simp add: dump_def)
  have keys: "\<forall>kv\<in>set (kwargs args). fst kv \<in> set column_names"
    using assms kwargs_keys[of args] by (metis (no_types, lifting) image_eqI subsetD)
  have known: "\<forall>kv\<in>set (kwargs args). getattr_Persona L (fst kv) \<noteq> None"
    using keys by (simp add: getattr_Persona_None_iff)
  obtain cs where cs: "filter_by L (kwargs args) = Inr cs"
    "\<forall>p. list_all (\<lambda>c. c p) cs
        = (\<forall>kv\<in>set (kwargs args).
             \<exists>a. getattr_Persona L (fst kv) = Some a \<and> clause L a (snd kv) p)"
    using filter_by_resolved[OF known] by blast
  have eq: "\<And>r. list_all (\<lambda>c. c r) cs = spec_filter_matches L (map_of args) r"
  proof -
    fix r
    have "list_all (\<lambda>c. c r) cs
        = (\<forall>kv\<in>set (kwargs args).
             \<exists>a. getattr_Persona L (fst kv) = Some a \<and> clause L a (snd kv) r)"
      using cs(2) by blast
    also have "\<dots> = (\<forall>k v. (k, v) \<in> set (kwargs args)
                        \<longrightarrow> (\<exists>a. getattr_Persona L k = Some a \<and> clause L a v r))"
      by auto
    also have "\<dots> = (\<forall>k v. map_of args k = Some v
                        \<longrightarrow> (\<exists>a. getattr_Persona L k = Some a \<and> clause L a v r))"
      by (simp add: kwargs_set)
    also have "\<dots> = spec_filter_matches L (map_of args) r"
      by (rule columns_match_spec[OF assms])
    finally show "list_all (\<lambda>c. c r) cs = spec_filter_matches L (map_of args) r" .
  qed
  have a: "get_all_persons L st args
           = (Items (map dump (filter (spec_filter_matches L (map_of args)) (rows st))), 200)"
    using cs(1) eq by (simp add: get_all_persons_def query_all_def)
  have b: "get_all_persons L st [] = (Items (map dump (rows st)), 200)"
    by (simp add: get_all_persons_def query_all_def)
  show ?thesis using a b unfolding d by blast
qed

lemma sample_sql_int_34: "sql_int sample_lib ''34'' = Some 34"
  by code_simp

lemma sample_row_json:
  "dump ana_row = [(''id'', JInt 1), (''nombre'', JStr ''Ana Garcia''), (''apellido'', JStr ''Garcia''),
           (''categoria'', JStr ''A''), (''edad'', JNull),
           (''correo_electronico'', JStr ''ana@x.com''), (''url'', JStr ''http://x.com''),
           (''fecha_nacimiento'', JNull)]"
  "dump luis_row = [(''id'', JInt 2), (''nombre'', JStr ''Luis''), (''apellido'', JStr ''Perez''),
           (''categoria'', JStr ''B''), (''edad'', JInt 34),
           (''correo_electronico'', JStr ''luis@x.com''), (''url'', JStr ''http://y.com''),
           (''fecha_nacimiento'', JStr ''1990-05-17'')]"
  by code_simp+

theorem get_all_persons_equality_conjunction_witness:
  "fst ` set [(''edad'', ''34'')] \<subseteq> set column_names
   \<and> get_all_persons sample_lib two_store [(''edad'', ''34'')]
       = (Items [[(''id'', JInt 2), (''nombre'', JStr ''Luis''), (''apellido'', JStr ''Perez''),
           (''categoria'', JStr ''B''), (''edad'', JInt 34),
           (''correo_electronico'', JStr ''luis@x.com''), (''url'', JStr ''http://y.com''),
           (''fecha_nacimiento'', JStr ''1990-05-17'')]], 200)
   \<and> get_all_persons sample_lib two_store [(''edad'', ''99'')] = (Items [], 200)
   \<and> get_all_persons sample_lib two_store [(''edad'', ''34''), (''categoria'', ''A'')]
       = (Items [], 200)
   \<and> get_all_persons sample_lib two_store [(''categoria'', ''A'')]
       = (Items [[(''id'', JInt 1), (''nombre'', JStr ''Ana Garcia''), (''apellido'', JStr ''Garcia''),
           (''categoria'', JStr ''A''), (''edad'', JNull),
           (''correo_electronico'', JStr ''ana@x.com''), (''url'', JStr ''http://x.com''),
           (''fecha_nacimiento'', JNull)]], 200)
   \<and> get_all_persons sample_lib two_store []
       = (Items [[(''id'', JInt 1), (''nombre'', JStr ''Ana Garcia''), (''apellido'', JStr ''Garcia''),
           (''categoria'', JStr ''A''), (''edad'', JNull),
           (''correo_electronico'', JStr ''ana@x.com''), (''url'', JStr ''http://x.com''),
           (''fecha_nacimiento'', JNull)],
                 [(''id'', JInt 2), (''nombre'', JStr ''Luis''), (''apellido'', JStr ''Perez''),
           (''categoria'', JStr ''B''), (''edad'', JInt 34),
           (''correo_electronico'', JStr ''luis@x.com''), (''url'', JStr ''http://y.com''),
           (''fecha_nacimiento'', JStr ''1990-05-17'')]], 200)"
proof -
  have h: "fst ` set [(''edad'', ''34'')] \<subseteq> set column_names"
    by (simp add: column_names_def)
  have ana: "\<not> spec_filter_matches sample_lib (map_of [(''edad'', ''34'')]) ana_row"
    by (simp add: spec_filter_matches_def text_denotes_def ana_row_def)
  have luis: "spec_filter_matches sample_lib (map_of [(''edad'', ''34'')]) luis_row"
    by (simp add: spec_filter_matches_def text_denotes_def luis_row_def sample_sql_int_34)
  have r: "rows two_store = [ana_row, luis_row]" by (simp add: two_store_def)
  have j: "[(''id'', JInt 2), (''nombre'', JStr ''Luis''), (''apellido'', JStr ''Perez''),
           (''categoria'', JStr ''B''), (''edad'', JInt 34),
           (''correo_electronico'', JStr ''luis@x.com''), (''url'', JStr ''http://y.com''),
           (''fecha_nacimiento'', JStr ''1990-05-17'')]
           = (\<lambda>r. [(''id'', serialize (id_p r)), (''nombre'', serialize (nombre r)),
                   (''apellido'', serialize (apellido r)),
                   (''categoria'', serialize (categoria r)),
                   (''edad'', serialize (edad r)),
                   (''correo_electronico'', serialize (correo_electronico r)),
                   (''url'', serialize (url r)),
                   (''fecha_nacimiento'', serialize (fecha_nacimiento r))]) luis_row"
    using sample_row_json(2) by (simp add: dump_def)
  have one: "get_all_persons sample_lib two_store [(''edad'', ''34'')]
       = (Items [[(''id'', JInt 2), (''nombre'', JStr ''Luis''), (''apellido'', JStr ''Perez''),
           (''categoria'', JStr ''B''), (''edad'', JInt 34),
           (''correo_electronico'', JStr ''luis@x.com''), (''url'', JStr ''http://y.com''),
           (''fecha_nacimiento'', JStr ''1990-05-17'')]], 200)"
    using get_all_persons_equality_conjunction[OF h, of sample_lib two_store] ana luis r j
    by simp
  have none: "get_all_persons sample_lib two_store [(''edad'', ''99'')] = (Items [], 200)"
    by code_simp
  have both: "get_all_persons sample_lib two_store [(''edad'', ''34''), (''categoria'', ''A'')]
       = (Items [], 200)"
    by code_simp
  have cat: "get_all_persons sample_lib two_store [(''categoria'', ''A'')]
       = (Items [[(''id'', JInt 1), (''nombre'', JStr ''Ana Garcia''), (''apellido'', JStr ''Garcia''),
           (''categoria'', JStr ''A''), (''edad'', JNull),
           (''correo_electronico'', JStr ''ana@x.com''), (''url'', JStr ''http://x.com''),
           (''fecha_nacimiento'', JNull)]], 200)"
    by code_simp
  have all: "get_all_persons sample_lib two_store []
       = (Items [[(''id'', JInt 1), (''nombre'', JStr ''Ana Garcia''), (''apellido'', JStr ''Garcia''),
           (''categoria'', JStr ''A''), (''edad'', JNull),
           (''correo_electronico'', JStr ''ana@x.com''), (''url'', JStr ''http://x.com''),
           (''fecha_nacimiento'', JNull)],
                 [(''id'', JInt 2), (''nombre'', JStr ''Luis''), (''apellido'', JStr ''Perez''),
           (''categoria'', JStr ''B''), (''edad'', JInt 34),
           (''correo_electronico'', JStr ''luis@x.com''), (''url'', JStr ''http://y.com''),
           (''fecha_nacimiento'', JStr ''1990-05-17'')]], 200)"
    by code_simp
  show ?thesis using h one none both cat all by blast
qed




section \<open>Partial update\<close>

lemma fname_simps:
  "fname nombre_field = ''nombre''"
  "fname apellido_field = ''apellido''"
  "fname categoria_field = ''categoria''"
  "fname (edad_field L) = ''edad''"
  "fname (correo_electronico_field L) = ''correo_electronico''"
  "fname (url_field L) = ''url''"
  "fname (fecha_nacimiento_field L boot) = ''fecha_nacimiento''"
  by (simp_all add: nombre_field_def apellido_field_def categoria_field_def edad_field_def
      correo_electronico_field_def url_field_def fecha_nacimiento_field_def)

lemma load_categoria_only:
  "load True (PersonaSchema L boot) [(''categoria'', v)]
     = (case deser categoria_field v of
          Inl e \<Rightarrow> Inl [(''categoria'', e)]
        | Inr x \<Rightarrow> Inr [(''categoria'', x)])"
  by (cases "deser categoria_field v")
     (simp_all add: load_def PersonaSchema_def fname_simps unknown_errors_def)

lemma deser_categoria_Inr:
  assumes "deser categoria_field v = Inr x"
  shows "\<exists>c. v = JStr c \<and> x = VStr c \<and> c \<in> set [''A'', ''B'', ''C'', ''D'', ''E'', ''F'']"
proof (cases v)
  case (JStr c)
  then show ?thesis using assms
    by (simp add: categoria_field_def deserialize_def run_validators_def OneOf_def
        split: if_splits)
qed (use assms in \<open>simp_all add: categoria_field_def deserialize_def\<close>)

lemma deser_categoria_valid:
  assumes "c \<in> set [''A'', ''B'', ''C'', ''D'', ''E'', ''F'']"
  shows "deser categoria_field (JStr c) = Inr (VStr c)"
  using assms by (auto simp: categoria_field_def deserialize_def run_validators_def OneOf_def)

lemma get_or_404_Some:
  assumes "get_or_404 st i = Some p"
  shows "p \<in> set (rows st) \<and> id_p p = VInt i"
  using assms unfolding get_or_404_def find_Some_iff by auto

lemma primary_key_unique:
  assumes "distinct (map id_p (rows st))" "get_or_404 st i = Some p"
      and "r \<in> set (rows st)" "id_p r = VInt i"
  shows "r = p"
proof -
  have "inj_on id_p (set (rows st))" using assms(1) by (simp add: distinct_map)
  moreover have "p \<in> set (rows st)" "id_p p = VInt i"
    using get_or_404_Some[OF assms(2)] by simp_all
  ultimately show ?thesis using assms(3,4) by (metis inj_onD)
qed

lemma replace_row_pointwise:
  assumes "distinct (map id_p (rows st))" "get_or_404 st i = Some p"
  shows "map (\<lambda>r. if id_p r = VInt i then p\<lparr>categoria := x\<rparr> else r) (rows st)
         = map (\<lambda>r. if id_p r = VInt i then r\<lparr>categoria := x\<rparr> else r) (rows st)"
proof (rule map_cong)
  fix r assume "r \<in> set (rows st)"
  then show "(if id_p r = VInt i then p\<lparr>categoria := x\<rparr> else r)
             = (if id_p r = VInt i then r\<lparr>categoria := x\<rparr> else r)"
    using primary_key_unique[OF assms] by auto
qed simp

lemma update_person_categoria_loaded:
  assumes ok: "table_ok st" and g: "get_or_404 st i = Some p"
      and d: "deser categoria_field v = Inr x"
  shows "update_person L boot st i [(''categoria'', v)]
           = ((Item (dump (p\<lparr>categoria := x\<rparr>)), 200),
              st\<lparr>rows := map (\<lambda>r. if id_p r = VInt i then r\<lparr>categoria := x\<rparr> else r) (rows st)\<rparr>)"
proof -
  have pin: "p \<in> set (rows st)" using get_or_404_Some[OF g] by simp
  have "list_all not_null_ok (rows st)" using ok by (simp add: table_ok_def)
  then have nn: "not_null_ok p" using pin by (simp add: list_all_iff)
  obtain c where c: "x = VStr c" using deser_categoria_Inr[OF d] by blast
  have nn': "not_null_ok (p\<lparr>categoria := x\<rparr>)" using nn c by (simp add: not_null_ok_def)
  have dist: "distinct (map id_p (rows st))" using ok by (simp add: table_ok_def)
  have l: "load True (PersonaSchema L boot) [(''categoria'', v)] = Inr [(''categoria'', x)]"
    using d by (simp add: load_categoria_only)
  have s: "foldl setattr p [(''categoria'', x)] = p\<lparr>categoria := x\<rparr>"
    by (simp add: setattr_def)
  have u: "update_commit st i p (p\<lparr>categoria := x\<rparr>)
             = Some (st\<lparr>rows := map (\<lambda>r. if id_p r = VInt i then p\<lparr>categoria := x\<rparr> else r) (rows st)\<rparr>)"
    using nn' by (simp add: update_commit_def)
  show ?thesis
    unfolding update_person_def l using g s u replace_row_pointwise[OF dist g, of x] by simp
qed

lemma rows_unchanged_as_update:
  assumes "distinct (map id_p (rows st))" "get_or_404 st i = Some p"
  shows "st = st\<lparr>rows := map (\<lambda>r. if id_p r = VInt i then r\<lparr>categoria := categoria p\<rparr> else r) (rows st)\<rparr>"
proof -
  have "map (\<lambda>r. if id_p r = VInt i then r\<lparr>categoria := categoria p\<rparr> else r) (rows st)
          = map (\<lambda>r. r) (rows st)"
  proof (rule map_cong)
    fix r assume "r \<in> set (rows st)"
    then show "(if id_p r = VInt i then r\<lparr>categoria := categoria p\<rparr> else r) = r"
      using primary_key_unique[OF assms] by auto
  qed simp
  then show ?thesis by simp
qed

text \<open>
  Claim C5. On a table that satisfies its declared constraints, a partial update whose only
  key is the category changes nothing but the category column of the row with that
  identifier: every other column of that row and every other row are as before. With one of
  the six letters the answer is 200 with the updated row; with any other value the table is
  unchanged.
\<close>

theorem update_person_categoria_only:
  assumes "table_ok st" and "get_or_404 st i = Some p"
  shows "(c \<in> set [''A'', ''B'', ''C'', ''D'', ''E'', ''F''] \<longrightarrow>
            update_person L boot st i [(''categoria'', JStr c)]
              = ((Item (dump (p\<lparr>categoria := VStr c\<rparr>)), 200),
                 st\<lparr>rows := map (\<lambda>r. if id_p r = VInt i then r\<lparr>categoria := VStr c\<rparr> else r)
                                (rows st)\<rparr>))
         \<and> (\<exists>x. snd (update_person L boot st i [(''categoria'', v)])
                 = st\<lparr>rows := map (\<lambda>r. if id_p r = VInt i then r\<lparr>categoria := x\<rparr> else r)
                                (rows st)\<rparr>)"
proof -
  have dist: "distinct (map id_p (rows st))" using assms(1) by (simp add: table_ok_def)
  have a: "c \<in> set [''A'', ''B'', ''C'', ''D'', ''E'', ''F''] \<longrightarrow>
            update_person L boot st i [(''categoria'', JStr c)]
              = ((Item (dump (p\<lparr>categoria := VStr c\<rparr>)), 200),
                 st\<lparr>rows := map (\<lambda>r. if id_p r = VInt i then r\<lparr>categoria := VStr c\<rparr> else r)
                                (rows st)\<rparr>)"
    using update_person_categoria_loaded[OF assms deser_categoria_valid] by blast
  have b: "\<exists>x. snd (update_person L boot st i [(''categoria'', v)])
                 = st\<lparr>rows := map (\<lambda>r. if id_p r = VInt i then r\<lparr>categoria := x\<rparr> else r)
                                (rows st)\<rparr>"
  proof (cases "deser categoria_field v")
    case (Inl e)
    then have "load True (PersonaSchema L boot) [(''categoria'', v)] = Inl [(''categoria'', e)]"
      by (simp add: load_categoria_only)
    then have "snd (update_person L boot st i [(''categoria'', v)]) = st"
      by (simp add: update_person_def)
    then show ?thesis using rows_unchanged_as_update[OF dist assms(2)] by metis
  next
    case (Inr x)
    show ?thesis using update_person_categoria_loaded[OF assms Inr, of L boot] by auto
  qed
  show ?thesis using a b by blast
qed

theorem update_person_categoria_only_witness:
  "table_ok ana_store \<and> get_or_404 ana_store 1 = Some ana_row
   \<and> ''B'' \<in> set [''A'', ''B'', ''C'', ''D'', ''E'', ''F'']
   \<and> update_person sample_lib (Date 2024 1 1) ana_store 1 [(''categoria'', JStr ''B'')]
       = ((Item (dump (ana_row\<lparr>categoria := VStr ''B''\<rparr>)), 200),
          \<lparr>rows = [ana_row\<lparr>categoria := VStr ''B''\<rparr>], next_id = 2\<rparr>)"
proof -
  have ok: "table_ok ana_store"
    by (simp add: table_ok_def ana_store_def ana_row_def not_null_ok_def)
  have g: "get_or_404 ana_store 1 = Some ana_row"
    by (simp add: get_or_404_def ana_store_def ana_row_def)
  have m: "''B'' \<in> set [''A'', ''B'', ''C'', ''D'', ''E'', ''F'']" by simp
  have r: "ana_store\<lparr>rows := map (\<lambda>r. if id_p r = VInt 1 then r\<lparr>categoria := VStr ''B''\<rparr> else r)
                                (rows ana_store)\<rparr>
           = \<lparr>rows = [ana_row\<lparr>categoria := VStr ''B''\<rparr>], next_id = 2\<rparr>"
    by (simp add: ana_store_def ana_row_def)
  have "update_person sample_lib (Date 2024 1 1) ana_store 1 [(''categoria'', JStr ''B'')]
       = ((Item (dump (ana_row\<lparr>categoria := VStr ''B''\<rparr>)), 200),
          ana_store\<lparr>rows := map (\<lambda>r. if id_p r = VInt 1 then r\<lparr>categoria := VStr ''B''\<rparr> else r)
                                (rows ana_store)\<rparr>)"
    using update_person_categoria_only[OF ok g, of "''B''" sample_lib "Date 2024 1 1"] m by blast
  then show ?thesis using ok g m r by simp
qed

section \<open>The name\<close>

lemma nullable_lang: "nullable r = ([] \<in> lang r)"
  by (induction r) (auto intro: reps_nil)

lemma reps_cons_split:
  assumes "x \<in> reps A" "x = c # s"
  shows "\<exists>u v. s = u @ v \<and> c # u \<in> A \<and> v \<in> reps A"
  using assms
proof (induction rule: reps.induct)
  case reps_nil
  then show ?case by simp
next
  case (reps_app u v)
  show ?case
  proof (cases u)
    case Nil
    then show ?thesis using reps_app by simp
  next
    case (Cons d u')
    then have "d = c" "s = u' @ v" using reps_app.prems by simp_all
    then show ?thesis using Cons reps_app.hyps by blast
  qed
qed

lemma reps_cons: "(c # s \<in> reps A) = (\<exists>u v. s = u @ v \<and> c # u \<in> A \<and> v \<in> reps A)"
proof
  assume "c # s \<in> reps A"
  then show "\<exists>u v. s = u @ v \<and> c # u \<in> A \<and> v \<in> reps A"
    using reps_cons_split by blast
next
  assume "\<exists>u v. s = u @ v \<and> c # u \<in> A \<and> v \<in> reps A"
  then obtain u v where uv: "s = u @ v" "c # u \<in> A" "v \<in> reps A" by blast
  have "(c # u) @ v \<in> reps A" using uv(2,3) by (rule reps_app)
  then show "c # s \<in> reps A" using uv(1) by simp
qed

lemma deriv_lang: "(s \<in> lang (deriv c r)) = (c # s \<in> lang r)"
proof (induction r arbitrary: s)
  case (RSeq r1 r2)
  have "(c # s \<in> lang (RSeq r1 r2))
        = (([] \<in> lang r1 \<and> c # s \<in> lang r2)
           \<or> (\<exists>u v. s = u @ v \<and> c # u \<in> lang r1 \<and> v \<in> lang r2))"
    by (auto simp: Cons_eq_append_conv) 
  also have "\<dots> = (s \<in> lang (deriv c (RSeq r1 r2)))"
    using RSeq by (auto simp: nullable_lang)
  finally show ?case by simp
next
  case (RStar r)
  have "(s \<in> lang (deriv c (RStar r)))
        = (\<exists>u v. s = u @ v \<and> u \<in> lang (deriv c r) \<and> v \<in> reps (lang r))"
    by auto
  also have "\<dots> = (\<exists>u v. s = u @ v \<and> c # u \<in> lang r \<and> v \<in> reps (lang r))"
    using RStar by simp
  also have "\<dots> = (c # s \<in> lang (RStar r))" by (simp add: reps_cons)
  finally show ?case .
qed auto

lemma fullmatch_lang: "fullmatch r s = (s \<in> lang r)"
  by (induction s arbitrary: r) (simp_all add: nullable_lang deriv_lang)

lemma reps_singletons: "(x \<in> reps {[c] | c. P c}) = list_all P x"
proof
  assume "x \<in> reps {[c] | c. P c}"
  then show "list_all P x" by (induction rule: reps.induct) auto
next
  assume "list_all P x"
  then show "x \<in> reps {[c] | c. P c}"
  proof (induction x)
    case Nil
    show ?case by (rule reps_nil)
  next
    case (Cons c x)
    have "[c] \<in> {[c] | c. P c}" using Cons.prems by auto
    moreover have "x \<in> reps {[c] | c. P c}" using Cons by simp
    ultimately have "[c] @ x \<in> reps {[c] | c. P c}" by (rule reps_app)
    then show ?case by simp
  qed
qed

lemma single_then:
  "(\<exists>u v. s = u @ v \<and> (\<exists>c. u = [c] \<and> P c) \<and> v \<in> B) = (\<exists>c v. s = c # v \<and> P c \<and> v \<in> B)"
proof
  assume "\<exists>u v. s = u @ v \<and> (\<exists>c. u = [c] \<and> P c) \<and> v \<in> B"
  then obtain u v c where "s = u @ v" "u = [c]" "P c" "v \<in> B" by blast
  then have "s = c # v \<and> P c \<and> v \<in> B" by simp
  then show "\<exists>c v. s = c # v \<and> P c \<and> v \<in> B" by blast
next
  assume "\<exists>c v. s = c # v \<and> P c \<and> v \<in> B"
  then obtain c v where "s = c # v" "P c" "v \<in> B" by blast
  then have "s = [c] @ v \<and> (\<exists>d. [c] = [d] \<and> P d) \<and> v \<in> B" by simp
  then show "\<exists>u v. s = u @ v \<and> (\<exists>c. u = [c] \<and> P c) \<and> v \<in> B" by blast
qed

lemma lang_RPlus_RRange:
  "(s \<in> lang (RPlus (RRange lo hi))) = (s \<noteq> [] \<and> list_all (in_range lo hi) s)"
proof -
  have "(s \<in> lang (RPlus (RRange lo hi)))
        = (\<exists>c v. s = c # v \<and> in_range lo hi c \<and> v \<in> reps {[c] | c. in_range lo hi c})"
    using single_then[of s "in_range lo hi" "reps {[c] | c. in_range lo hi c}"]
    by (simp add: RPlus_def)
  also have "\<dots> = (\<exists>c v. s = c # v \<and> in_range lo hi c \<and> list_all (in_range lo hi) v)"
    by (simp add: reps_singletons)
  also have "\<dots> = (s \<noteq> [] \<and> list_all (in_range lo hi) s)"
    by (cases s) auto
  finally show ?thesis .
qed

lemma lang_capitalised: "(s \<in> lang capitalised) = is_word s"
proof -
  have "(s \<in> lang capitalised)
        = (\<exists>c v. s = c # v \<and> in_range CHR ''A'' CHR ''Z'' c
                 \<and> v \<in> lang (RPlus (RRange CHR ''a'' CHR ''z'')))"
    using single_then[of s "in_range CHR ''A'' CHR ''Z''" "lang (RPlus (RRange CHR ''a'' CHR ''z''))"]
    by (simp add: capitalised_def)
  also have "\<dots> = (\<exists>c v. s = c # v \<and> in_range CHR ''A'' CHR ''Z'' c
                 \<and> v \<noteq> [] \<and> list_all (in_range CHR ''a'' CHR ''z'') v)"
    by (simp add: lang_RPlus_RRange)
  also have "\<dots> = is_word s" by (cases s) auto
  finally show ?thesis .
qed

lemma lang_spaced_word:
  "(s \<in> lang (RSeq (RChar CHR '' '') capitalised)) = (\<exists>w. s = CHR '' '' # w \<and> is_word w)"
proof -
  have "(s \<in> lang (RSeq (RChar CHR '' '') capitalised))
        = (\<exists>w. s = CHR '' '' # w \<and> w \<in> lang capitalised)"
    by auto
  then show ?thesis by (simp add: lang_capitalised)
qed

lemma reps_spaced_words:
  "(v \<in> reps (lang (RSeq (RChar CHR '' '') capitalised)))
   = (\<exists>ws. list_all is_word ws \<and> v = concat (map (\<lambda>w. CHR '' '' # w) ws))"
proof
  assume "v \<in> reps (lang (RSeq (RChar CHR '' '') capitalised))"
  then show "\<exists>ws. list_all is_word ws \<and> v = concat (map (\<lambda>w. CHR '' '' # w) ws)"
  proof (induction rule: reps.induct)
    case reps_nil
    have "list_all is_word [] \<and> [] = concat (map (\<lambda>w. CHR '' '' # w) [])" by simp
    then show ?case by blast
  next
    case (reps_app u v)
    obtain w where w: "u = CHR '' '' # w" "is_word w"
      using reps_app.hyps(1) lang_spaced_word by blast
    obtain ws where ws: "list_all is_word ws" "v = concat (map (\<lambda>w. CHR '' '' # w) ws)"
      using reps_app.IH by blast
    have "list_all is_word (w # ws) \<and> u @ v = concat (map (\<lambda>w. CHR '' '' # w) (w # ws))"
      using w ws by simp
    then show ?case by blast
  qed
next
  assume "\<exists>ws. list_all is_word ws \<and> v = concat (map (\<lambda>w. CHR '' '' # w) ws)"
  then obtain ws where ws: "list_all is_word ws" "v = concat (map (\<lambda>w. CHR '' '' # w) ws)"
    by blast
  have "concat (map (\<lambda>w. CHR '' '' # w) ws) \<in> reps (lang (RSeq (RChar CHR '' '') capitalised))"
    using ws(1)
  proof (induction ws)
    case Nil
    show ?case using reps_nil by simp
  next
    case (Cons w ws)
    have "CHR '' '' # w \<in> lang (RSeq (RChar CHR '' '') capitalised)"
      using Cons.prems lang_spaced_word by simp
    moreover have "concat (map (\<lambda>w. CHR '' '' # w) ws)
                     \<in> reps (lang (RSeq (RChar CHR '' '') capitalised))"
      using Cons by simp
    ultimately have "(CHR '' '' # w) @ concat (map (\<lambda>w. CHR '' '' # w) ws)
                     \<in> reps (lang (RSeq (RChar CHR '' '') capitalised))"
      by (rule reps_app)
    then show ?case by simp
  qed
  then show "v \<in> reps (lang (RSeq (RChar CHR '' '') capitalised))" using ws(2) by simp
qed

lemma fullmatch_nombre_rexp: "fullmatch nombre_rexp s = spec_name_shape s"
proof -
  have "fullmatch nombre_rexp s = (s \<in> lang nombre_rexp)" by (rule fullmatch_lang)
  also have "\<dots> = (\<exists>u v. s = u @ v \<and> u \<in> lang capitalised
                       \<and> v \<in> reps (lang (RSeq (RChar CHR '' '') capitalised)))"
    unfolding nombre_rexp_def by auto
  also have "\<dots> = (\<exists>u v. s = u @ v \<and> is_word u
                       \<and> (\<exists>ws. list_all is_word ws \<and> v = concat (map (\<lambda>w. CHR '' '' # w) ws)))"
    unfolding lang_capitalised reps_spaced_words by (rule refl)
  also have "\<dots> = spec_name_shape s" unfolding spec_name_shape_def by blast
  finally show ?thesis .
qed

lemma anchored_match_nombre_rexp:
  "anchored_match nombre_rexp s
     = (spec_name_shape s \<or> (\<exists>t. s = t @ [CHR 0x0A] \<and> spec_name_shape t))"
proof -
  have "(s \<noteq> [] \<and> last s = CHR 0x0A \<and> spec_name_shape (butlast s))
        = (\<exists>t. s = t @ [CHR 0x0A] \<and> spec_name_shape t)"
  proof
    assume a: "s \<noteq> [] \<and> last s = CHR 0x0A \<and> spec_name_shape (butlast s)"
    then have "s = butlast s @ [CHR 0x0A]" by (metis append_butlast_last_id)
    then show "\<exists>t. s = t @ [CHR 0x0A] \<and> spec_name_shape t" using a by blast
  next
    assume "\<exists>t. s = t @ [CHR 0x0A] \<and> spec_name_shape t"
    then obtain t where "s = t @ [CHR 0x0A]" "spec_name_shape t" by blast
    then show "s \<noteq> [] \<and> last s = CHR 0x0A \<and> spec_name_shape (butlast s)" by simp
  qed
  then show ?thesis by (simp add: anchored_match_def fullmatch_nombre_rexp)
qed

lemma nombre_field_in_schema: "nombre_field \<in> set (PersonaSchema L boot)"
  by (simp add: PersonaSchema_def)

lemmas nombre_eval = run_validators_def nombre_validators_def Regexp_def Length_min_def
  anchored_match_def nombre_rexp_def capitalised_def RPlus_def in_range_def

text \<open>
  Claim C4. A name in a creation input is accepted exactly when it matches the pattern and has
  at least three characters; both validators run. Matching the pattern means having the shape
  of capitalised words separated by single spaces, where \<^verbatim>\<open>$\<close> also lets one final newline
  pass. The name \<^verbatim>\<open>john\<close> is refused and \<^verbatim>\<open>John Smith\<close> is accepted.
\<close>

theorem nombre_accepted_iff_pattern_and_length:
  assumes "map_of inp ''nombre'' = Some (JStr s)"
  shows "(errors_for (load False (PersonaSchema L boot) inp) ''nombre'' = None)
           = (anchored_match nombre_rexp s \<and> 3 \<le> length s)
         \<and> anchored_match nombre_rexp s
             = (spec_name_shape s \<or> (\<exists>t. s = t @ [CHR 0x0A] \<and> spec_name_shape t))
         \<and> run_validators nombre_validators s
             = Regexp nombre_rexp nombre_regexp_error s @ Length_min 3 nombre_length_error s
         \<and> run_validators nombre_validators ''john'' = [nombre_regexp_error]
         \<and> run_validators nombre_validators ''John Smith'' = []"
proof -
  have rv: "run_validators nombre_validators s
             = Regexp nombre_rexp nombre_regexp_error s @ Length_min 3 nombre_length_error s"
    by (simp add: run_validators_def nombre_validators_def)
  have ok: "(run_validators nombre_validators s = [])
              = (anchored_match nombre_rexp s \<and> 3 \<le> length s)"
    unfolding rv by (auto simp: Regexp_def Length_min_def)
  have fe: "(field_errors False nombre_field inp = None)
              = (run_validators nombre_validators s = [])"
    using assms by (simp add: field_errors_def nombre_field_def deserialize_def)
  have "errors_for (load False (PersonaSchema L boot) inp) (fname nombre_field)
          = field_errors False nombre_field inp"
    by (rule load_errors_for[OF PersonaSchema_distinct nombre_field_in_schema])
  then have a: "(errors_for (load False (PersonaSchema L boot) inp) ''nombre'' = None)
           = (anchored_match nombre_rexp s \<and> 3 \<le> length s)"
    using fe ok by (simp add: fname_simps)
  have j: "run_validators nombre_validators ''john'' = [nombre_regexp_error]"
    by (simp add: nombre_eval)
  have js: "run_validators nombre_validators ''John Smith'' = []"
    by (simp add: nombre_eval)
  show ?thesis using a anchored_match_nombre_rexp[of s] rv j js by blast
qed

theorem nombre_accepted_iff_pattern_and_length_witness:
  "map_of [(''nombre'', JStr ''john'')] ''nombre'' = Some (JStr ''john'')
   \<and> errors_for (load False (PersonaSchema sample_lib (Date 2024 1 1))
         [(''nombre'', JStr ''john'')]) ''nombre'' \<noteq> None
   \<and> errors_for (load False (PersonaSchema sample_lib (Date 2024 1 1))
         [(''nombre'', JStr ''John Smith'')]) ''nombre'' = None
   \<and> errors_for (load False (PersonaSchema sample_lib (Date 2024 1 1))
         [(''nombre'', JStr ''Al'')]) ''nombre'' \<noteq> None"
proof -
  have a: "\<not> anchored_match nombre_rexp ''john''" by (simp add: nombre_eval)
  have b: "anchored_match nombre_rexp ''John Smith'' \<and> 3 \<le> length ''John Smith''"
    by (simp add: nombre_eval)
  have c: "\<not> 3 \<le> length ''Al''" by simp
  show ?thesis
    using a b c
      nombre_accepted_iff_pattern_and_length[of "[(''nombre'', JStr ''john'')]" "''john''"
        sample_lib "Date 2024 1 1"]
      nombre_accepted_iff_pattern_and_length[of "[(''nombre'', JStr ''John Smith'')]"
        "''John Smith''" sample_lib "Date 2024 1 1"]
      nombre_accepted_iff_pattern_and_length[of "[(''nombre'', JStr ''Al'')]" "''Al''"
        sample_lib "Date 2024 1 1"]
    by simp
qed

section \<open>The constraints of the table are maintained\<close>

text \<open>
  The empty table satisfies \<^const>\<open>table_ok\<close>, and every handler that writes keeps it: the
  engine refuses the writes that would break a constraint, and the identifier it hands out is
  new.
\<close>

lemma setattr_id: "id_p (setattr p kv) = id_p p"
  by (cases kv) (simp add: setattr_def)

lemma foldl_setattr_id: "id_p (foldl setattr p d) = id_p p"
  by (induction d arbitrary: p) (simp_all add: setattr_id)

lemma email_taken_iff: "email_taken rs e = (e \<in> correo_electronico ` set rs)"
  unfolding email_taken_def find_None_iff image_iff by auto

lemma table_ok_empty: "table_ok \<lparr>rows = [], next_id = n\<rparr>"
  by (simp add: table_ok_def)

lemma table_ok_delete: "table_ok st \<Longrightarrow> table_ok (snd (delete_person st i))"
proof -
  assume ok: "table_ok st"
  have f: "table_ok (delete_commit st i)"
    using ok by (auto simp: table_ok_def delete_commit_def distinct_map_filter list_all_iff
        split: pyval.splits)
  show ?thesis using ok f by (cases "get_or_404 st i") (simp_all add: delete_person_def)
qed

lemma table_ok_insert:
  assumes ok: "table_ok st" and ins: "insert_commit st p = Some (row, st')"
  shows "table_ok st'"
proof -
  have c: "not_null_ok p" "\<not> email_taken (rows st) (correo_electronico p)"
    using ins by (auto simp: insert_commit_def split: if_splits)
  have row: "row = p\<lparr>id_p := VInt (next_id st),
                     es_activo := (if es_activo p = VNone then VBool True else es_activo p)\<rparr>"
    and st': "st' = st\<lparr>rows := rows st @ [row], next_id := next_id st + 1\<rparr>"
    using ins c by (auto simp: insert_commit_def Let_def)
  have ids: "\<forall>r\<in>set (rows st). case id_p r of VInt n \<Rightarrow> n < next_id st | _ \<Rightarrow> False"
    using ok by (simp add: table_ok_def list_all_iff)
  have fresh: "VInt (next_id st) \<notin> id_p ` set (rows st)"
  proof
    assume "VInt (next_id st) \<in> id_p ` set (rows st)"
    then obtain r where "r \<in> set (rows st)" "id_p r = VInt (next_id st)" by auto
    then show False using ids by force
  qed
  have d1: "distinct (map id_p (rows st'))"
    using ok fresh by (simp add: st' row table_ok_def)
  have d2: "distinct (map correo_electronico (rows st'))"
    using ok c(2) by (simp add: st' row table_ok_def email_taken_iff)
  have n: "list_all not_null_ok (rows st')"
    using ok c(1) by (simp add: st' row table_ok_def not_null_ok_def)
  have b: "list_all (\<lambda>r. case id_p r of VInt n \<Rightarrow> n < next_id st' | _ \<Rightarrow> False) (rows st')"
    using ids by (auto simp: st' row list_all_iff split: pyval.splits)
  show ?thesis using d1 d2 n b by (simp add: table_ok_def)
qed

lemma table_ok_create:
  assumes "table_ok st"
  shows "table_ok (snd (create_person L boot st inp))"
proof (cases "load False (PersonaSchema L boot) inp")
  case (Inl e)
  then show ?thesis using assms by (simp add: create_person_def)
next
  case (Inr d)
  show ?thesis
  proof (cases "insert_commit st (Persona d)")
    case None
    then show ?thesis using assms Inr by (simp add: create_person_def)
  next
    case (Some a)
    obtain row st' where a: "a = (row, st')" by (cases a)
    have "table_ok st'" using table_ok_insert[OF assms] Some a by simp
    then show ?thesis using Inr Some a by (simp add: create_person_def)
  qed
qed

lemma table_ok_update_commit:
  assumes ok: "table_ok st" and g: "get_or_404 st i = Some p"
      and idn: "id_p new = id_p p"
      and u: "update_commit st i p new = Some st'"
  shows "table_ok st'"
proof -
  have pin: "p \<in> set (rows st)" and pid: "id_p p = VInt i"
    using get_or_404_Some[OF g] by simp_all
  have dist: "distinct (map id_p (rows st))" using ok by (simp add: table_ok_def)
  obtain xs ys where split: "rows st = xs @ p # ys" using pin by (meson split_list)
  have notin: "VInt i \<notin> id_p ` set xs" "VInt i \<notin> id_p ` set ys"
    using dist pid unfolding split by auto
  have nx: "\<forall>r\<in>set xs. id_p r \<noteq> VInt i" using notin(1) by (metis imageI)
  have ny: "\<forall>r\<in>set ys. id_p r \<noteq> VInt i" using notin(2) by (metis imageI)
  have c: "not_null_ok new"
    "correo_electronico new = correo_electronico p
       \<or> \<not> email_taken (filter (\<lambda>r. id_p r \<noteq> VInt i) (rows st)) (correo_electronico new)"
    using u by (auto simp: update_commit_def split: if_splits)
  have st': "st' = st\<lparr>rows := map (\<lambda>r. if id_p r = VInt i then new else r) (rows st)\<rparr>"
    using u c by (auto simp: update_commit_def split: if_splits)
  have mx: "map (\<lambda>r. if id_p r = VInt i then new else r) xs = xs"
    using nx by (simp add: map_idI)
  have my: "map (\<lambda>r. if id_p r = VInt i then new else r) ys = ys"
    using ny by (simp add: map_idI)
  have rows': "rows st' = xs @ new # ys"
    unfolding st' split using mx my pid by simp
  have others: "filter (\<lambda>r. id_p r \<noteq> VInt i) (rows st) = xs @ ys"
    unfolding split using nx ny pid by (simp add: filter_id_conv)
  have d1: "distinct (map id_p (rows st'))"
    using dist idn unfolding rows' split by simp
  have de: "distinct (map correo_electronico (xs @ p # ys))"
    using ok unfolding table_ok_def split by simp
  have d2: "distinct (map correo_electronico (rows st'))"
  proof (cases "correo_electronico new = correo_electronico p")
    case True
    then show ?thesis using de unfolding rows' by simp
  next
    case False
    then have "correo_electronico new \<notin> correo_electronico ` set (xs @ ys)"
      using c(2) others by (simp add: email_taken_iff)
    then show ?thesis using de unfolding rows' by auto
  qed
  have n: "list_all not_null_ok (rows st')"
    using ok c(1) unfolding rows' table_ok_def split by simp
  have nid: "next_id st' = next_id st" unfolding st' by simp
  have b: "list_all (\<lambda>r. case id_p r of VInt n \<Rightarrow> n < next_id st' | _ \<Rightarrow> False) (rows st')"
    using ok idn unfolding rows' nid table_ok_def split by simp
  show ?thesis using d1 d2 n b by (simp add: table_ok_def)
qed

lemma table_ok_update:
  assumes "table_ok st"
  shows "table_ok (snd (update_person L boot st i inp))"
proof (cases "load True (PersonaSchema L boot) inp")
  case (Inl e)
  then show ?thesis using assms by (simp add: update_person_def)
next
  case (Inr d)
  show ?thesis
  proof (cases "get_or_404 st i")
    case None
    then show ?thesis using assms Inr by (simp add: update_person_def)
  next
    case (Some p)
    show ?thesis
    proof (cases "update_commit st i p (foldl setattr p d)")
      case None
      then show ?thesis using assms Inr Some by (simp add: update_person_def)
    next
      case (Some st')
      have "table_ok st'"
        using table_ok_update_commit[OF assms \<open>get_or_404 st i = Some p\<close> foldl_setattr_id Some] .
      then show ?thesis using Inr \<open>get_or_404 st i = Some p\<close> Some by (simp add: update_person_def)
    qed
  qed
qed

end
